theory Spec2Isabelle
  imports Complex_Main
begin

section \<open>Space Invaders: the game state of \<open>src/game.ts\<close>\<close>

text \<open>
  A shallow embedding of the single source file \<open>src/game.ts\<close>. The module-level
  variables become one record \<open>game\<close>; every function that mutates them takes the record
  and returns the updated one. JavaScript numbers are modelled as mathematical reals
  (rounding of doubles is not modelled); \<open>lives\<close> and \<open>currentLevel\<close> only ever hold
  integers and are modelled as \<open>int\<close>.

  What the rendering library contributes is written out where the game logic reads it:
  \<open>getBounds()\<close>, \<open>width\<close> and \<open>height\<close> of a \<open>PIXI.Graphics\<close> are the axis-aligned
  hull of the shapes drawn into it, scaled and moved to its position. Audio, HUD text,
  tints, the laser beam's graphic with its timers and the explosion animation (which
  removes an explosion again after 20 animation frames) have no influence on the rest of
  the game state and are left out, except that every request to play the shoot sound is
  counted. Of the children of the stage only the power-ups are tracked.
\<close>

subsection \<open>Constants\<close>

definition PLAYER_SPEED :: real where "PLAYER_SPEED = 5"
definition BULLET_SPEED :: real where "BULLET_SPEED = 7"
definition POWER_UP_DURATION :: real where "POWER_UP_DURATION = 10000"
definition POWER_UP_SPAWN_INTERVAL :: real where "POWER_UP_SPAWN_INTERVAL = 20000"
definition BASE_ENEMY_SPEED :: real where "BASE_ENEMY_SPEED = 0.5"
definition ENEMY_SPEED_INCREASE :: real where "ENEMY_SPEED_INCREASE = 0.2"
definition ENEMY_ROWS :: nat where "ENEMY_ROWS = 3"
definition ENEMIES_PER_ROW :: nat where "ENEMIES_PER_ROW = 8"
definition STARTING_LIVES :: int where "STARTING_LIVES = 3"
definition BULLET_COOLDOWN :: real where "BULLET_COOLDOWN = 500"
definition LASER_WIDTH :: real where "LASER_WIDTH = 6"
definition BOMB_DROP_INTERVAL :: real where "BOMB_DROP_INTERVAL = 60"
definition BOMB_SPEED :: real where "BOMB_SPEED = 3"

text \<open>The canvas of \<open>new PIXI.Application({width: 800, height: 600})\<close>.\<close>

definition screen_width :: real where "screen_width = 800"
definition screen_height :: real where "screen_height = 600"

definition playerWidth :: real where "playerWidth = 40"
definition playerHeight :: real where "playerHeight = 25"
definition cannonHeight :: real where "cannonHeight = 12"

text \<open>The delay of the \<open>setTimeout\<close> in the bomb-hit branch of the game loop.\<close>

definition RESPAWN_DELAY :: real where "RESPAWN_DELAY = 500"

subsection \<open>Entities\<close>

datatype PowerUpType = LASER | RAPID_FIRE | TRIPLE_SHOT

text \<open>\<open>Enemy = PIXI.Graphics & {direction}\<close>; \<open>enemy_scale\<close> is \<open>enemy.scale\<close>.\<close>

record enemy =
  enemy_x :: real
  enemy_y :: real
  enemy_scale :: real
  direction :: real

text \<open>
  \<open>IBullet\<close>: the four optional fields are \<open>None\<close> for \<open>undefined\<close>. Only triple-shot
  bullets define them.
\<close>

record bullet =
  bullet_x :: real
  bullet_y :: real
  angle :: "real option"
  dx :: "real option"
  dy :: "real option"
  bounceCount :: "nat option"

record bomb =
  bomb_x :: real
  bomb_y :: real

record explosion =
  explosion_x :: real
  explosion_y :: real
  explosion_volume :: real

record powerup =
  pu_x :: real
  pu_y :: real
  powerUpType :: PowerUpType
  powerUpActive :: bool
  powerUpTimer :: real
  bulletAngle :: real

text \<open>
  Power-up objects are shared between the array \<open>powerUps\<close> and the variable
  \<open>activePowerUp\<close> and are mutated through both, so they live in a store
  (\<open>pu_store\<close>, addresses are \<open>nat\<close>, \<open>pu_next\<close> is the next free address) and the
  state holds references. \<open>pu_stage\<close> is the set of power-ups that are children of
  \<open>app.stage\<close>. \<open>timeouts\<close> holds the delay of every pending respawn callback
  registered with \<open>setTimeout\<close>; \<open>shoot_sounds\<close> counts the shoot sounds requested.
\<close>

record game =
  currentLevel :: int
  bullets :: "bullet list"
  lives :: int
  gameOver :: bool
  enemySpeed :: real
  enemies :: "enemy list"
  enemyBombs :: "bomb list"
  powerUps :: "nat list"
  explosions :: "explosion list"
  left :: bool
  right :: bool
  space :: bool
  canShoot :: bool
  shootTimer :: real
  bombDropTimer :: nat
  activePowerUp :: "nat option"
  powerUpSpawnTime :: real
  player_x :: real
  player_y :: real
  player_visible :: bool
  pu_store :: "nat \<Rightarrow> powerup"
  pu_next :: nat
  pu_stage :: "nat set"
  timeouts :: "real list"
  shoot_sounds :: nat

text \<open>
  What one frame reads from outside: \<open>Date.now()\<close> in \<open>updatePowerUps\<close> and in
  \<open>shoot\<close>, and the three calls of \<open>Math.random()\<close> (power-up type, power-up
  position, bombing enemy), each in \<open>[0, 1)\<close>.
\<close>

record input =
  now_powerups :: real
  now_shoot :: real
  rnd_type :: real
  rnd_x :: real
  rnd_bomber :: real

subsection \<open>Bounding boxes and collision\<close>

record box =
  box_x :: real
  box_y :: real
  box_width :: real
  box_height :: real

definition checkCollision :: "box \<Rightarrow> box \<Rightarrow> bool" where
  "checkCollision aBox bBox =
     (box_x aBox + box_width aBox > box_x bBox \<and>
      box_x aBox < box_x bBox + box_width bBox \<and>
      box_y aBox + box_height aBox > box_y bBox \<and>
      box_y aBox < box_y bBox + box_height bBox)"

text \<open>
  The enemy shape spans \<open>0..30\<close> by \<open>0..22\<close> before scaling; \<open>enemy.width\<close> and
  \<open>enemy.height\<close> are that extent times the scale.
\<close>

definition enemy_width :: "enemy \<Rightarrow> real" where
  "enemy_width e = 30 * enemy_scale e"

definition enemy_height :: "enemy \<Rightarrow> real" where
  "enemy_height e = 22 * enemy_scale e"

definition enemy_box :: "enemy \<Rightarrow> box" where
  "enemy_box e = \<lparr>box_x = enemy_x e, box_y = enemy_y e,
                  box_width = enemy_width e, box_height = enemy_height e\<rparr>"

text \<open>A bullet is \<open>drawRect(0, 0, 3, 10)\<close>, a bomb is \<open>drawCircle(0, 0, 3)\<close>.\<close>

definition bullet_box :: "bullet \<Rightarrow> box" where
  "bullet_box b = \<lparr>box_x = bullet_x b, box_y = bullet_y b, box_width = 3, box_height = 10\<rparr>"

definition bomb_box :: "bomb \<Rightarrow> box" where
  "bomb_box b = \<lparr>box_x = bomb_x b - 3, box_y = bomb_y b - 3, box_width = 6, box_height = 6\<rparr>"

text \<open>
  The player's shape: the body spans \<open>0..playerWidth\<close> horizontally and reaches down to
  \<open>playerHeight\<close>; the cannon reaches up to \<open>-cannonHeight\<close>. \<open>player.width\<close> is
  \<open>playerWidth\<close>.
\<close>

definition player_width :: real where
  "player_width = playerWidth"

definition player_box :: "game \<Rightarrow> box" where
  "player_box s = \<lparr>box_x = player_x s, box_y = player_y s - cannonHeight,
                   box_width = playerWidth, box_height = playerHeight + cannonHeight\<rparr>"

text \<open>The three power-up shapes drawn by \<open>createPowerUp\<close>.\<close>

definition powerup_box :: "powerup \<Rightarrow> box" where
  "powerup_box p =
     (case powerUpType p of
        LASER \<Rightarrow> \<lparr>box_x = pu_x p - 3, box_y = pu_y p - 15, box_width = 6, box_height = 30\<rparr>
      | RAPID_FIRE \<Rightarrow> \<lparr>box_x = pu_x p - 10, box_y = pu_y p - 10, box_width = 20, box_height = 20\<rparr>
      | TRIPLE_SHOT \<Rightarrow> \<lparr>box_x = pu_x p - 10, box_y = pu_y p - 5, box_width = 25, box_height = 10\<rparr>)"

subsection \<open>Helpers for arrays\<close>

text \<open>
  \<open>xs.splice(i, 1)\<close> for an index within the array. The loops of the source that
  remove elements run an index down from the last element and remove at most the element
  at that index, so the index is within the array at every iteration; the model reads
  \<open>xs ! i\<close> there.
\<close>

definition splice1 :: "nat \<Rightarrow> 'a list \<Rightarrow> 'a list" where
  "splice1 i xs = take i xs @ drop (Suc i) xs"

subsection \<open>Explosions, enemies, bombs\<close>

definition createExplosion :: "real \<Rightarrow> real \<Rightarrow> real \<Rightarrow> game \<Rightarrow> game" where
  "createExplosion x y vol s =
     s\<lparr>explosions := explosions s @
          [\<lparr>explosion_x = x, explosion_y = y, explosion_volume = vol\<rparr>]\<rparr>"

definition new_enemy :: "nat \<Rightarrow> nat \<Rightarrow> enemy" where
  "new_enemy row col =
     \<lparr>enemy_x = real col * 60 + 100, enemy_y = real row * 40 + 50,
      enemy_scale = 0.8 + real row * 0.1, direction = 1\<rparr>"

definition createEnemies :: "game \<Rightarrow> game" where
  "createEnemies s =
     s\<lparr>enemies := concat (map (\<lambda>row. map (\<lambda>col. new_enemy row col) [0..<ENEMIES_PER_ROW])
                               [0..<ENEMY_ROWS])\<rparr>"

definition dropBomb :: "real \<Rightarrow> real \<Rightarrow> game \<Rightarrow> game" where
  "dropBomb x y s = s\<lparr>enemyBombs := enemyBombs s @ [\<lparr>bomb_x = x, bomb_y = y\<rparr>]\<rparr>"

subsection \<open>Reset and level advance\<close>

definition resetGame :: "bool \<Rightarrow> game \<Rightarrow> game" where
  "resetGame isNewGame s =
     (let s1 = s\<lparr>gameOver := False\<rparr>;
          s2 = (if isNewGame
                then s1\<lparr>lives := STARTING_LIVES, currentLevel := 1,
                        enemySpeed := BASE_ENEMY_SPEED\<rparr>
                else s1);
          s3 = s2\<lparr>bombDropTimer := 0, bullets := [], enemyBombs := [],
                  player_x := screen_width / 2, player_visible := True\<rparr>
      in createEnemies s3)"

definition nextLevel :: "game \<Rightarrow> game" where
  "nextLevel s =
     (let s1 = s\<lparr>currentLevel := currentLevel s + 1\<rparr>;
          s2 = s1\<lparr>enemySpeed := BASE_ENEMY_SPEED
                      + (real_of_int (currentLevel s1) - 1) * ENEMY_SPEED_INCREASE\<rparr>
      in createEnemies s2)"

subsection \<open>Keyboard\<close>

text \<open>
  The keys the handlers tell apart: \<open>KeyR\<close> is any key whose lower-case name is \<open>r\<close>,
  \<open>KeyOther\<close> is every other key.
\<close>

datatype key = ArrowLeft | ArrowRight | KeySpace | KeyR | KeyOther

definition keydown :: "key \<Rightarrow> game \<Rightarrow> game" where
  "keydown k s =
     (if gameOver s \<and> k = KeyR then resetGame True s
      else if gameOver s then s
      else (case k of
              ArrowLeft \<Rightarrow> s\<lparr>left := True\<rparr>
            | ArrowRight \<Rightarrow> s\<lparr>right := True\<rparr>
            | KeySpace \<Rightarrow> s\<lparr>space := True\<rparr>
            | _ \<Rightarrow> s))"

definition keyup :: "key \<Rightarrow> game \<Rightarrow> game" where
  "keyup k s =
     (case k of
        ArrowLeft \<Rightarrow> s\<lparr>left := False\<rparr>
      | ArrowRight \<Rightarrow> s\<lparr>right := False\<rparr>
      | KeySpace \<Rightarrow> s\<lparr>space := False, canShoot := True\<rparr>
      | _ \<Rightarrow> s)"

subsection \<open>Power-ups\<close>

text \<open>
  \<open>createPowerUp\<close> allocates a new object; \<open>r\<close> is the value of \<open>Math.random()\<close> that
  places it. It returns the reference with the state.
\<close>

definition createPowerUp :: "PowerUpType \<Rightarrow> real \<Rightarrow> game \<Rightarrow> nat \<times> game" where
  "createPowerUp type r s =
     (let ref = pu_next s;
          powerUp = \<lparr>pu_x = r * (screen_width - 30) + 15, pu_y = -20, powerUpType = type,
                     powerUpActive = False, powerUpTimer = 0, bulletAngle = 0\<rparr>
      in (ref, s\<lparr>pu_store := (pu_store s)(ref := powerUp), pu_next := Suc ref,
                  pu_stage := insert ref (pu_stage s)\<rparr>))"

text \<open>
  \<open>activatePowerUp\<close>: the assignments follow the source's order. Its first statement,
  which deactivates the power-up in effect, is \<open>deactivate_current\<close>; the new power-up
  is activated after that. \<open>indexOf\<close> with \<open>splice\<close> removes the first occurrence,
  which is \<open>remove1\<close>.
\<close>

definition deactivate_current :: "game \<Rightarrow> game" where
  "deactivate_current s =
     (case activePowerUp s of
        None \<Rightarrow> s
      | Some prev \<Rightarrow>
          s\<lparr>pu_store := (pu_store s)(prev := (pu_store s prev)\<lparr>powerUpActive := False\<rparr>)\<rparr>)"

definition activatePowerUp :: "nat \<Rightarrow> game \<Rightarrow> game" where
  "activatePowerUp powerUp s =
     (let s1 = deactivate_current s;
          s2 = s1\<lparr>activePowerUp := Some powerUp\<rparr>;
          s3 = s2\<lparr>pu_store := (pu_store s2)(powerUp :=
                    (pu_store s2 powerUp)\<lparr>powerUpActive := True,
                                            powerUpTimer := POWER_UP_DURATION\<rparr>)\<rparr>;
          s4 = s3\<lparr>powerUps := remove1 powerUp (powerUps s3)\<rparr>
      in s4\<lparr>pu_stage := pu_stage s4 - {powerUp}\<rparr>)"

text \<open>The type of the power-up in effect, \<open>activePowerUp?.powerUpType\<close>.\<close>

definition active_type :: "game \<Rightarrow> PowerUpType option" where
  "active_type s = map_option (\<lambda>r. powerUpType (pu_store s r)) (activePowerUp s)"

text \<open>\<open>powerUpTypes[Math.floor(Math.random() * powerUpTypes.length)]\<close>.\<close>

definition random_type :: "real \<Rightarrow> PowerUpType" where
  "random_type r =
     (let i = \<lfloor>r * 3\<rfloor> in if i = 0 then LASER else if i = 1 then RAPID_FIRE else TRIPLE_SHOT)"

definition spawn_powerup :: "input \<Rightarrow> game \<Rightarrow> game" where
  "spawn_powerup inp s =
     (if activePowerUp s = None \<and> powerUps s = [] \<and>
         now_powerups inp - powerUpSpawnTime s > POWER_UP_SPAWN_INTERVAL
      then (case createPowerUp (random_type (rnd_type inp)) (rnd_x inp) s of
              (ref, s1) \<Rightarrow> s1\<lparr>powerUps := powerUps s1 @ [ref],
                               powerUpSpawnTime := now_powerups inp\<rparr>)
      else s)"

definition expire_powerup :: "game \<Rightarrow> game" where
  "expire_powerup s =
     (case activePowerUp s of
        None \<Rightarrow> s
      | Some a \<Rightarrow>
          (let s1 = s\<lparr>pu_store := (pu_store s)(a :=
                        (pu_store s a)\<lparr>powerUpTimer := powerUpTimer (pu_store s a) - 16.67\<rparr>)\<rparr>
           in if powerUpTimer (pu_store s1 a) \<le> 0 then s1\<lparr>activePowerUp := None\<rparr> else s1))"

text \<open>
  The loop \<open>for (let i = powerUps.length - 1; i >= 0; i--)\<close>: \<open>powerUps_loop n\<close> runs
  the iterations \<open>i = n - 1, \<dots>, 0\<close>.
\<close>

fun powerUps_loop :: "nat \<Rightarrow> game \<Rightarrow> game" where
  "powerUps_loop 0 s = s"
| "powerUps_loop (Suc i) s =
     (let powerUp = powerUps s ! i;
          s1 = s\<lparr>pu_store := (pu_store s)(powerUp :=
                    (pu_store s powerUp)\<lparr>pu_y := pu_y (pu_store s powerUp) + 1\<rparr>)\<rparr>
      in if pu_y (pu_store s1 powerUp) > screen_height
         then powerUps_loop i (s1\<lparr>pu_stage := pu_stage s1 - {powerUp},
                                  powerUps := splice1 i (powerUps s1)\<rparr>)
         else if checkCollision (powerup_box (pu_store s1 powerUp)) (player_box s1)
         then powerUps_loop i (activatePowerUp powerUp s1)
         else powerUps_loop i s1)"

definition updatePowerUps :: "input \<Rightarrow> game \<Rightarrow> game" where
  "updatePowerUps inp s =
     (let s1 = spawn_powerup inp s;
          s2 = expire_powerup s1
      in powerUps_loop (length (powerUps s2)) s2)"

subsection \<open>Shooting\<close>

text \<open>
  The laser's enemy loop \<open>for (let j = enemies.length - 1; j >= 0; j--)\<close>;
  \<open>lx\<close> is \<open>laser.x\<close>.
\<close>

fun laser_loop :: "real \<Rightarrow> nat \<Rightarrow> game \<Rightarrow> game" where
  "laser_loop lx 0 s = s"
| "laser_loop lx (Suc j) s =
     (let e = enemies s ! j
      in if enemy_x e < lx + (LASER_WIDTH / 2 + 4) \<and>
            enemy_x e + enemy_width e > lx - (LASER_WIDTH / 2 + 4) \<and>
            enemy_y e + enemy_height e > 0
         then laser_loop lx j
                ((createExplosion (enemy_x e + enemy_width e / 2)
                                  (enemy_y e + enemy_height e / 2) 0.15 s)
                   \<lparr>enemies := splice1 j (enemies s)\<rparr>)
         else laser_loop lx j s)"

definition fire_laser :: "game \<Rightarrow> game" where
  "fire_laser s = laser_loop (player_x s + playerWidth / 2) (length (enemies s)) s"

definition triple_bullet :: "game \<Rightarrow> real \<Rightarrow> bullet" where
  "triple_bullet s a =
     \<lparr>bullet_x = player_x s + playerWidth / 2 - 1.5, bullet_y = player_y s - 10,
      angle = Some a,
      dx = Some (sin a * BULLET_SPEED * 1.5),
      dy = Some (- \<bar>cos a * BULLET_SPEED * 1.5\<bar>),
      bounceCount = Some 0\<rparr>"

definition fire_triple :: "game \<Rightarrow> game" where
  "fire_triple s = s\<lparr>bullets := bullets s @ map (triple_bullet s) [-0.2, 0, 0.2]\<rparr>"

definition normal_bullet :: "game \<Rightarrow> bullet" where
  "normal_bullet s =
     \<lparr>bullet_x = player_x s + playerWidth / 2 - 1.5, bullet_y = player_y s - 10,
      angle = None, dx = None, dy = None, bounceCount = None\<rparr>"

definition fire_normal :: "game \<Rightarrow> game" where
  "fire_normal s = s\<lparr>bullets := bullets s @ [normal_bullet s]\<rparr>"

text \<open>\<open>shoot()\<close>; \<open>now\<close> is the value of \<open>Date.now()\<close>.\<close>

definition shoot :: "real \<Rightarrow> game \<Rightarrow> game" where
  "shoot now s =
     (if \<not> canShoot s then s
      else if active_type s = Some RAPID_FIRE \<and> now - shootTimer s < BULLET_COOLDOWN / 5 then s
      else if active_type s \<noteq> Some RAPID_FIRE \<and> \<not> space s then s
      else
        (let s1 = s\<lparr>shootTimer := now\<rparr>;
             s2 = (if active_type s1 = Some LASER then fire_laser s1
                   else if active_type s1 = Some TRIPLE_SHOT then fire_triple s1
                   else fire_normal s1);
             s3 = s2\<lparr>shoot_sounds := Suc (shoot_sounds s2)\<rparr>
         in if active_type s3 \<noteq> Some RAPID_FIRE then s3\<lparr>canShoot := False\<rparr> else s3))"

subsection \<open>The game loop\<close>

definition move_player :: "game \<Rightarrow> game" where
  "move_player s =
     (let s1 = (if left s \<and> player_x s > 0
                then s\<lparr>player_x := player_x s - PLAYER_SPEED\<rparr> else s)
      in if right s1 \<and> player_x s1 < screen_width - player_width
         then s1\<lparr>player_x := player_x s1 + PLAYER_SPEED\<rparr> else s1)"

text \<open>
  The movement of one bullet: \<open>None\<close> when the bullet is removed (the \<open>continue\<close>
  branches), otherwise the bullet as it goes on to the enemy check.
\<close>

definition move_bullet :: "bullet \<Rightarrow> bullet option" where
  "move_bullet b =
     (case (dx b, dy b, bounceCount b) of
        (Some vx, Some vy, Some n) \<Rightarrow>
          (let b1 = b\<lparr>bullet_x := bullet_x b + vx, bullet_y := bullet_y b + vy\<rparr>;
               b2 = (if bullet_x b1 \<le> 0 \<or> bullet_x b1 \<ge> screen_width
                     then b1\<lparr>dx := Some (vx * -1),
                             bullet_x := max 0 (min (bullet_x b1) screen_width),
                             bounceCount := Some (Suc n)\<rparr>
                     else b1)
           in if bullet_y b2 \<le> 0 then None
              else if bullet_y b2 > screen_height \<or>
                      (case bounceCount b2 of Some m \<Rightarrow> m > 3 | None \<Rightarrow> False)
              then None
              else Some b2)
      | _ \<Rightarrow>
          (let b1 = b\<lparr>bullet_y := bullet_y b - BULLET_SPEED\<rparr>
           in if bullet_y b1 < 0 \<or> bullet_y b1 > screen_height then None else Some b1))"

text \<open>
  The inner loop \<open>for (let j = enemies.length - 1; j >= 0; j--)\<close> up to its \<open>break\<close>:
  the index of the enemy hit, scanning downwards from \<open>n - 1\<close>.
\<close>

fun find_hit :: "box \<Rightarrow> enemy list \<Rightarrow> nat \<Rightarrow> nat option" where
  "find_hit bb es 0 = None"
| "find_hit bb es (Suc j) =
     (if checkCollision bb (enemy_box (es ! j)) then Some j else find_hit bb es j)"

text \<open>One iteration of the bullet loop, for the bullet at index \<open>i\<close>.\<close>

definition bullet_step :: "nat \<Rightarrow> game \<Rightarrow> game" where
  "bullet_step i s =
     (case move_bullet (bullets s ! i) of
        None \<Rightarrow> s\<lparr>bullets := splice1 i (bullets s)\<rparr>
      | Some b \<Rightarrow>
          (let s1 = s\<lparr>bullets := (bullets s)[i := b]\<rparr>
           in case find_hit (bullet_box b) (enemies s1) (length (enemies s1)) of
                None \<Rightarrow> s1
              | Some j \<Rightarrow>
                  (let e = enemies s1 ! j
                   in (createExplosion (enemy_x e + enemy_width e / 2)
                                       (enemy_y e + enemy_height e / 2) 0.2 s1)
                        \<lparr>bullets := splice1 i (bullets s1),
                         enemies := splice1 j (enemies s1)\<rparr>)))"

fun bullets_loop :: "nat \<Rightarrow> game \<Rightarrow> game" where
  "bullets_loop 0 s = s"
| "bullets_loop (Suc i) s = bullets_loop i (bullet_step i s)"

text \<open>
  The bomb drop. \<open>Math.random()\<close> is below 1, so the index is within the array; the
  model drops no bomb for an index outside.
\<close>

definition drop_bombs :: "input \<Rightarrow> game \<Rightarrow> game" where
  "drop_bombs inp s =
     (let s1 = s\<lparr>bombDropTimer := Suc (bombDropTimer s)\<rparr>
      in if real (bombDropTimer s1)
              \<ge> BOMB_DROP_INTERVAL / (1 + real_of_int (currentLevel s1) * 0.2)
            \<and> length (enemies s1) > 0
         then (let s2 = s1\<lparr>bombDropTimer := 0\<rparr>;
                   k = nat \<lfloor>rnd_bomber inp * real (length (enemies s2))\<rfloor>
               in if k < length (enemies s2)
                  then (let bomber = enemies s2 ! k
                        in dropBomb (enemy_x bomber + enemy_width bomber / 2)
                                    (enemy_y bomber + enemy_height bomber) s2)
                  else s2)
         else s1)"

text \<open>
  The bomb loop \<open>for (let i = enemyBombs.length - 1; i >= 0; i--)\<close>. The result is
  paired with \<open>True\<close> when the loop left the whole frame by its \<open>return\<close>.
\<close>

definition move_bomb :: "bomb \<Rightarrow> bomb" where
  "move_bomb b = b\<lparr>bomb_y := bomb_y b + BOMB_SPEED\<rparr>"

fun bombs_loop :: "nat \<Rightarrow> game \<Rightarrow> bool \<times> game" where
  "bombs_loop 0 s = (False, s)"
| "bombs_loop (Suc i) s =
     (let b = move_bomb (enemyBombs s ! i);
          s1 = s\<lparr>enemyBombs := (enemyBombs s)[i := b]\<rparr>
      in if bomb_y b > screen_height
         then bombs_loop i (s1\<lparr>enemyBombs := splice1 i (enemyBombs s1)\<rparr>)
         else if checkCollision (player_box s1) (bomb_box b)
         then (True,
               (createExplosion (player_x s1 + playerWidth / 2)
                                (player_y s1 + playerHeight / 2) 0.3 s1)
                 \<lparr>enemyBombs := splice1 i (enemyBombs s1),
                  player_visible := False,
                  timeouts := timeouts s1 @ [RESPAWN_DELAY]\<rparr>)
         else bombs_loop i s1)"

text \<open>
  The callback registered by the bomb hit, run by the timer after the delay.
\<close>

definition respawn_callback :: "game \<Rightarrow> game" where
  "respawn_callback s =
     (let s1 = s\<lparr>lives := lives s - 1\<rparr>
      in if lives s1 \<le> 0 then s1\<lparr>gameOver := True\<rparr>
         else (resetGame False s1)\<lparr>player_visible := True\<rparr>)"

text \<open>
  What the \<open>forEach\<close> callback does on losing a life, in both of its branches.
\<close>

definition lose_life :: "game \<Rightarrow> game" where
  "lose_life s =
     (let s1 = s\<lparr>lives := lives s - 1\<rparr>
      in if lives s1 \<le> 0 then s1\<lparr>gameOver := True, player_visible := False\<rparr>
         else resetGame False s1)"

text \<open>
  \<open>enemies.forEach(enemy => \<dots>)\<close>. The array being iterated is fixed when \<open>forEach\<close>
  starts; \<open>resetGame\<close> makes the variable \<open>enemies\<close> point to a new array, and from
  then on the callback mutates objects that are no longer in the state. The arguments:
  the elements of the iterated array still to visit, the index of the first of them,
  \<open>aliased\<close> (the variable \<open>enemies\<close> still is the iterated array) and
  \<open>needsToChangeDirection\<close>. The \<open>return\<close> statements of the callback end the
  callback for one enemy; \<open>forEach\<close> goes on with the next.
\<close>

fun enemies_forEach :: "enemy list \<Rightarrow> nat \<Rightarrow> bool \<Rightarrow> bool \<Rightarrow> game \<Rightarrow> bool \<times> game" where
  "enemies_forEach [] i aliased needsToChangeDirection s = (needsToChangeDirection, s)"
| "enemies_forEach (e0 # rest) i aliased needsToChangeDirection s =
     (let e = e0\<lparr>enemy_x := enemy_x e0 + enemySpeed s * direction e0\<rparr>;
          s1 = (if aliased then s\<lparr>enemies := (enemies s)[i := e]\<rparr> else s);
          ntc = (needsToChangeDirection \<or>
                 enemy_x e > screen_width - enemy_width e \<or> enemy_x e < 0)
      in if enemy_y e + enemy_height e > player_y s1
         then enemies_forEach rest (Suc i) (aliased \<and> lives s1 - 1 \<le> 0) ntc (lose_life s1)
         else if checkCollision (player_box s1) (enemy_box e)
         then enemies_forEach rest (Suc i) (aliased \<and> lives s1 - 1 \<le> 0) ntc (lose_life s1)
         else enemies_forEach rest (Suc i) aliased ntc s1)"

definition change_direction :: "game \<Rightarrow> game" where
  "change_direction s =
     s\<lparr>enemies := map (\<lambda>e. e\<lparr>direction := direction e * -1, enemy_y := enemy_y e + 20\<rparr>)
                       (enemies s)\<rparr>"

text \<open>
  The callback of \<open>app.ticker.add\<close>, one frame, in three parts: the frame up to the
  bomb loop (power-ups, player, shooting, bullets, bomb drop), the bomb loop, and the
  rest of the frame (enemies, direction change, level check), which is skipped when the
  bomb loop has left the callback.
\<close>

definition frame_to_bombs :: "input \<Rightarrow> game \<Rightarrow> game" where
  "frame_to_bombs inp s =
     (let s1 = updatePowerUps inp s;
          s2 = move_player s1;
          s3 = (if space s2 then shoot (now_shoot inp) s2 else s2);
          s4 = bullets_loop (length (bullets s3)) s3
      in drop_bombs inp s4)"

definition frame_after_bombs :: "game \<Rightarrow> game" where
  "frame_after_bombs s =
     (case enemies_forEach (enemies s) 0 True False s of
        (needsToChangeDirection, s1) \<Rightarrow>
          (let s2 = (if needsToChangeDirection then change_direction s1 else s1)
           in if length (enemies s2) = 0
              then nextLevel (s2\<lparr>enemyBombs := []\<rparr>)
              else s2))"

definition tick :: "input \<Rightarrow> game \<Rightarrow> game" where
  "tick inp s =
     (if gameOver s then s
      else
        (let s1 = frame_to_bombs inp s
         in case bombs_loop (length (enemyBombs s1)) s1 of
              (True, s2) \<Rightarrow> s2
            | (False, s2) \<Rightarrow> frame_after_bombs s2))"

subsection \<open>Events and runs\<close>

text \<open>
  The program is driven by four kinds of events: a frame, a key going down, a key going
  up, and a pending respawn timer firing. When a timer fires relative to the frames is
  left open; a timer can only fire when one is pending.
\<close>

datatype event = Tick input | KeyDown key | KeyUp key | Timeout

definition step :: "event \<Rightarrow> game \<Rightarrow> game" where
  "step ev s =
     (case ev of
        Tick inp \<Rightarrow> tick inp s
      | KeyDown k \<Rightarrow> keydown k s
      | KeyUp k \<Rightarrow> keyup k s
      | Timeout \<Rightarrow>
          (case timeouts s of
             [] \<Rightarrow> s
           | t # ts \<Rightarrow> respawn_callback (s\<lparr>timeouts := ts\<rparr>)))"

text \<open>
  The state when the module has been loaded: the initial values of the variables, the
  player placed, \<open>createEnemies()\<close> and \<open>resetGame(true)\<close> called.
\<close>

definition default_powerup :: powerup where
  "default_powerup = \<lparr>pu_x = 0, pu_y = 0, powerUpType = LASER, powerUpActive = False,
                      powerUpTimer = 0, bulletAngle = 0\<rparr>"

definition module_vars :: game where
  "module_vars =
     \<lparr>currentLevel = 1, bullets = [], lives = STARTING_LIVES, gameOver = False,
      enemySpeed = BASE_ENEMY_SPEED, enemies = [], enemyBombs = [], powerUps = [],
      explosions = [], left = False, right = False, space = False, canShoot = True,
      shootTimer = 0, bombDropTimer = 0, activePowerUp = None, powerUpSpawnTime = 0,
      player_x = screen_width / 2 - playerWidth / 2,
      player_y = screen_height - playerHeight - 20,
      player_visible = True, pu_store = (\<lambda>_. default_powerup), pu_next = 0,
      pu_stage = {}, timeouts = [], shoot_sounds = 0\<rparr>"

definition init_game :: game where
  "init_game = resetGame True (createEnemies module_vars)"

inductive reachable :: "game \<Rightarrow> bool" where
  reachable_init: "reachable init_game"
| reachable_step: "reachable s \<Longrightarrow> reachable (step ev s)"

text \<open>A run: the events in the order in which they happen.\<close>

fun run :: "event list \<Rightarrow> game \<Rightarrow> game" where
  "run [] s = s"
| "run (ev # evs) s = run evs (step ev s)"

subsection \<open>Example states\<close>


text \<open>An input with the clock at 0 and every random number 0.\<close>

definition input0 :: input where
  "input0 = \<lparr>now_powerups = 0, now_shoot = 0, rnd_type = 0, rnd_x = 0, rnd_bomber = 0\<rparr>"

text \<open>
  One enemy left in the top row, one bomb far above the player and one bomb just above
  the player's cannon.
\<close>

definition bomb_hit_state :: game where
  "bomb_hit_state =
     init_game\<lparr>enemies := [new_enemy 0 0],
               enemyBombs := [\<lparr>bomb_x = 120, bomb_y = 100\<rparr>, \<lparr>bomb_x = 420, bomb_y = 540\<rparr>]\<rparr>"

text \<open>
  Two enemies of the bottom row (scale 1) that the last descent has brought to
  \<open>y = 550\<close>, so that their bottom edge is below the player's \<open>y = 555\<close>; once with
  three lives left and once with one.
\<close>

definition low_enemies :: "enemy list" where
  "low_enemies = [\<lparr>enemy_x = 100, enemy_y = 550, enemy_scale = 1, direction = 1\<rparr>,
                  \<lparr>enemy_x = 160, enemy_y = 550, enemy_scale = 1, direction = 1\<rparr>]"

definition two_low_state :: game where
  "two_low_state = init_game\<lparr>enemies := low_enemies\<rparr>"

definition last_life_state :: game where
  "last_life_state = init_game\<lparr>enemies := low_enemies, lives := 1\<rparr>"

text \<open>
  The last enemy with a bullet just below it, and the two bombs of \<open>bomb_hit_state\<close>:
  in the next frame the bullet destroys the enemy and the second bomb hits the player.
\<close>

definition level_skip_state :: game where
  "level_skip_state =
     bomb_hit_state\<lparr>bullets := [\<lparr>bullet_x = 110, bullet_y = 70, angle = None, dx = None,
                                    dy = None, bounceCount = None\<rparr>]\<rparr>"

text \<open>The same with only the bomb far from the player.\<close>

definition level_clear_state :: game where
  "level_clear_state = level_skip_state\<lparr>enemyBombs := [\<lparr>bomb_x = 120, bomb_y = 100\<rparr>]\<rparr>"

text \<open>An input half a minute after the start, which lets a power-up spawn.\<close>

definition input1 :: input where
  "input1 = \<lparr>now_powerups = 30000, now_shoot = 30000, rnd_type = 0, rnd_x = 1 / 2,
             rnd_bomber = 0\<rparr>"

text \<open>
  A laser power-up that has come down to the player's cannon while a rapid-fire power-up
  is in effect.
\<close>

definition pickup_state :: game where
  "pickup_state =
     init_game\<lparr>powerUps := [1], activePowerUp := Some 0,
               pu_store := (\<lambda>_. default_powerup)
                 (0 := \<lparr>pu_x = 300, pu_y = 540, powerUpType = RAPID_FIRE,
                        powerUpActive = True, powerUpTimer = 5000, bulletAngle = 0\<rparr>,
                  1 := \<lparr>pu_x = 420, pu_y = 530, powerUpType = LASER,
                        powerUpActive = False, powerUpTimer = 0, bulletAngle = 0\<rparr>),
               pu_next := 2, pu_stage := {1}\<rparr>"

subsection \<open>Player positions\<close>

text \<open>
  The positions the player can take: whole multiples of \<open>PLAYER_SPEED\<close> up to the
  right bound. It is the invariant behind the bounds of the player's movement.
\<close>

definition on_grid :: "real \<Rightarrow> bool" where
  "on_grid x \<longleftrightarrow> (\<exists>k::nat. x = PLAYER_SPEED * real k \<and> x \<le> screen_width - player_width)"

subsection \<open>Centres and midpoints\<close>



subsection \<open>Power-ups the game refers to\<close>

text \<open>
  The power-ups the state refers to are those on the screen (the array \<open>powerUps\<close>) and
  the one in the variable \<open>activePowerUp\<close>; \<open>active_powerups\<close> lists those of them
  whose \<open>powerUpActive\<close> flag is set. A power-up that has expired keeps its flag, but
  nothing refers to it any more. \<open>pu_inv\<close> is the invariant that keeps the two apart:
  the power-ups on the screen are distinct, allocated and not active, and the power-up
  in effect is allocated, active and not on the screen.
\<close>

definition referred_powerups :: "game \<Rightarrow> nat list" where
  "referred_powerups s =
     remdups (powerUps s @ (case activePowerUp s of None \<Rightarrow> [] | Some a \<Rightarrow> [a]))"

definition active_powerups :: "game \<Rightarrow> nat list" where
  "active_powerups s = filter (\<lambda>r. powerUpActive (pu_store s r)) (referred_powerups s)"

definition pu_inv :: "game \<Rightarrow> bool" where
  "pu_inv s \<longleftrightarrow>
     distinct (powerUps s) \<and>
     (\<forall>r \<in> set (powerUps s). r < pu_next s \<and> \<not> powerUpActive (pu_store s r)) \<and>
     (\<forall>a. activePowerUp s = Some a \<longrightarrow>
        a < pu_next s \<and> a \<notin> set (powerUps s) \<and> powerUpActive (pu_store s a))"

subsection \<open>Lives and game over\<close>

text \<open>
  What the program does keep about lives: they never exceed the starting lives, and the
  game is over exactly when no life is left.
\<close>

definition lives_inv :: "game \<Rightarrow> bool" where
  "lives_inv s \<longleftrightarrow> lives s \<le> STARTING_LIVES \<and> (gameOver s \<longleftrightarrow> lives s \<le> 0)"

section \<open>Properties\<close>

subsection \<open>What each operation leaves alone\<close>

lemma createExplosion_frame [simp]:
  "canShoot (createExplosion x y v s) = canShoot s"
  "shoot_sounds (createExplosion x y v s) = shoot_sounds s"
  "shootTimer (createExplosion x y v s) = shootTimer s"
  "enemies (createExplosion x y v s) = enemies s"
  "bullets (createExplosion x y v s) = bullets s"
  "enemyBombs (createExplosion x y v s) = enemyBombs s"
  "activePowerUp (createExplosion x y v s) = activePowerUp s"
  "pu_store (createExplosion x y v s) = pu_store s"
  "powerUps (createExplosion x y v s) = powerUps s"
  "pu_stage (createExplosion x y v s) = pu_stage s"
  "pu_next (createExplosion x y v s) = pu_next s"
  "player_x (createExplosion x y v s) = player_x s"
  "player_y (createExplosion x y v s) = player_y s"
  "lives (createExplosion x y v s) = lives s"
  "gameOver (createExplosion x y v s) = gameOver s"
  "currentLevel (createExplosion x y v s) = currentLevel s"
  "enemySpeed (createExplosion x y v s) = enemySpeed s"
  "timeouts (createExplosion x y v s) = timeouts s"
  "explosions (createExplosion x y v s) =
     explosions s @ [\<lparr>explosion_x = x, explosion_y = y, explosion_volume = v\<rparr>]"
  by (simp_all add: createExplosion_def)

lemma createEnemies_frame [simp]:
  "canShoot (createEnemies s) = canShoot s"
  "shoot_sounds (createEnemies s) = shoot_sounds s"
  "activePowerUp (createEnemies s) = activePowerUp s"
  "pu_store (createEnemies s) = pu_store s"
  "powerUps (createEnemies s) = powerUps s"
  "pu_stage (createEnemies s) = pu_stage s"
  "pu_next (createEnemies s) = pu_next s"
  "player_x (createEnemies s) = player_x s"
  "player_y (createEnemies s) = player_y s"
  "lives (createEnemies s) = lives s"
  "gameOver (createEnemies s) = gameOver s"
  "currentLevel (createEnemies s) = currentLevel s"
  "enemySpeed (createEnemies s) = enemySpeed s"
  "enemyBombs (createEnemies s) = enemyBombs s"
  "bullets (createEnemies s) = bullets s"
  "timeouts (createEnemies s) = timeouts s"
  "explosions (createEnemies s) = explosions s"
  by (simp_all add: createEnemies_def)

lemma resetGame_frame [simp]:
  "canShoot (resetGame n s) = canShoot s"
  "shoot_sounds (resetGame n s) = shoot_sounds s"
  "activePowerUp (resetGame n s) = activePowerUp s"
  "pu_store (resetGame n s) = pu_store s"
  "powerUps (resetGame n s) = powerUps s"
  "pu_stage (resetGame n s) = pu_stage s"
  "pu_next (resetGame n s) = pu_next s"
  "player_y (resetGame n s) = player_y s"
  "timeouts (resetGame n s) = timeouts s"
  "explosions (resetGame n s) = explosions s"
  "player_x (resetGame n s) = screen_width / 2"
  "gameOver (resetGame n s) = False"
  "enemyBombs (resetGame n s) = []"
  "bullets (resetGame n s) = []"
  "lives (resetGame False s) = lives s"
  "currentLevel (resetGame False s) = currentLevel s"
  "enemySpeed (resetGame False s) = enemySpeed s"
  "lives (resetGame True s) = STARTING_LIVES"
  "currentLevel (resetGame True s) = 1"
  "enemySpeed (resetGame True s) = BASE_ENEMY_SPEED"
  by (simp_all add: resetGame_def Let_def)

lemma nextLevel_frame [simp]:
  "canShoot (nextLevel s) = canShoot s"
  "shoot_sounds (nextLevel s) = shoot_sounds s"
  "activePowerUp (nextLevel s) = activePowerUp s"
  "pu_store (nextLevel s) = pu_store s"
  "powerUps (nextLevel s) = powerUps s"
  "pu_stage (nextLevel s) = pu_stage s"
  "pu_next (nextLevel s) = pu_next s"
  "player_x (nextLevel s) = player_x s"
  "player_y (nextLevel s) = player_y s"
  "lives (nextLevel s) = lives s"
  "gameOver (nextLevel s) = gameOver s"
  "enemyBombs (nextLevel s) = enemyBombs s"
  "bullets (nextLevel s) = bullets s"
  "timeouts (nextLevel s) = timeouts s"
  "explosions (nextLevel s) = explosions s"
  "currentLevel (nextLevel s) = currentLevel s + 1"
  by (simp_all add: nextLevel_def Let_def)

lemma activatePowerUp_frame [simp]:
  "canShoot (activatePowerUp r s) = canShoot s"
  "left (activatePowerUp r s) = left s"
  "right (activatePowerUp r s) = right s"
  "space (activatePowerUp r s) = space s"
  "shoot_sounds (activatePowerUp r s) = shoot_sounds s"
  "player_x (activatePowerUp r s) = player_x s"
  "player_y (activatePowerUp r s) = player_y s"
  "pu_next (activatePowerUp r s) = pu_next s"
  "lives (activatePowerUp r s) = lives s"
  "gameOver (activatePowerUp r s) = gameOver s"
  "currentLevel (activatePowerUp r s) = currentLevel s"
  "enemySpeed (activatePowerUp r s) = enemySpeed s"
  "enemies (activatePowerUp r s) = enemies s"
  "enemyBombs (activatePowerUp r s) = enemyBombs s"
  "bullets (activatePowerUp r s) = bullets s"
  "timeouts (activatePowerUp r s) = timeouts s"
  "explosions (activatePowerUp r s) = explosions s"
  by (simp_all add: activatePowerUp_def deactivate_current_def Let_def split: option.split)

lemma spawn_powerup_frame [simp]:
  "canShoot (spawn_powerup inp s) = canShoot s"
  "left (spawn_powerup inp s) = left s"
  "right (spawn_powerup inp s) = right s"
  "space (spawn_powerup inp s) = space s"
  "shoot_sounds (spawn_powerup inp s) = shoot_sounds s"
  "player_x (spawn_powerup inp s) = player_x s"
  "player_y (spawn_powerup inp s) = player_y s"
  "lives (spawn_powerup inp s) = lives s"
  "gameOver (spawn_powerup inp s) = gameOver s"
  "currentLevel (spawn_powerup inp s) = currentLevel s"
  "enemySpeed (spawn_powerup inp s) = enemySpeed s"
  "enemies (spawn_powerup inp s) = enemies s"
  "enemyBombs (spawn_powerup inp s) = enemyBombs s"
  "bullets (spawn_powerup inp s) = bullets s"
  "timeouts (spawn_powerup inp s) = timeouts s"
  "explosions (spawn_powerup inp s) = explosions s"
  by (simp_all add: spawn_powerup_def createPowerUp_def Let_def)

lemma expire_powerup_frame [simp]:
  "canShoot (expire_powerup s) = canShoot s"
  "left (expire_powerup s) = left s"
  "right (expire_powerup s) = right s"
  "space (expire_powerup s) = space s"
  "shoot_sounds (expire_powerup s) = shoot_sounds s"
  "player_x (expire_powerup s) = player_x s"
  "player_y (expire_powerup s) = player_y s"
  "pu_next (expire_powerup s) = pu_next s"
  "powerUps (expire_powerup s) = powerUps s"
  "pu_stage (expire_powerup s) = pu_stage s"
  "lives (expire_powerup s) = lives s"
  "gameOver (expire_powerup s) = gameOver s"
  "currentLevel (expire_powerup s) = currentLevel s"
  "enemySpeed (expire_powerup s) = enemySpeed s"
  "enemies (expire_powerup s) = enemies s"
  "enemyBombs (expire_powerup s) = enemyBombs s"
  "bullets (expire_powerup s) = bullets s"
  "timeouts (expire_powerup s) = timeouts s"
  "explosions (expire_powerup s) = explosions s"
  by (simp_all add: expire_powerup_def Let_def split: option.split)

lemma powerUps_loop_frame [simp]:
  "canShoot (powerUps_loop n s) = canShoot s"
  "left (powerUps_loop n s) = left s"
  "right (powerUps_loop n s) = right s"
  "space (powerUps_loop n s) = space s"
  "shoot_sounds (powerUps_loop n s) = shoot_sounds s"
  "player_x (powerUps_loop n s) = player_x s"
  "player_y (powerUps_loop n s) = player_y s"
  "pu_next (powerUps_loop n s) = pu_next s"
  "lives (powerUps_loop n s) = lives s"
  "gameOver (powerUps_loop n s) = gameOver s"
  "currentLevel (powerUps_loop n s) = currentLevel s"
  "enemySpeed (powerUps_loop n s) = enemySpeed s"
  "enemies (powerUps_loop n s) = enemies s"
  "enemyBombs (powerUps_loop n s) = enemyBombs s"
  "bullets (powerUps_loop n s) = bullets s"
  "timeouts (powerUps_loop n s) = timeouts s"
  "explosions (powerUps_loop n s) = explosions s"
  by (induction n arbitrary: s; simp add: Let_def)+

lemma updatePowerUps_frame [simp]:
  "canShoot (updatePowerUps inp s) = canShoot s"
  "left (updatePowerUps inp s) = left s"
  "right (updatePowerUps inp s) = right s"
  "space (updatePowerUps inp s) = space s"
  "shoot_sounds (updatePowerUps inp s) = shoot_sounds s"
  "player_x (updatePowerUps inp s) = player_x s"
  "player_y (updatePowerUps inp s) = player_y s"
  "lives (updatePowerUps inp s) = lives s"
  "gameOver (updatePowerUps inp s) = gameOver s"
  "currentLevel (updatePowerUps inp s) = currentLevel s"
  "enemySpeed (updatePowerUps inp s) = enemySpeed s"
  "enemies (updatePowerUps inp s) = enemies s"
  "enemyBombs (updatePowerUps inp s) = enemyBombs s"
  "bullets (updatePowerUps inp s) = bullets s"
  "timeouts (updatePowerUps inp s) = timeouts s"
  "explosions (updatePowerUps inp s) = explosions s"
  by (simp_all add: updatePowerUps_def Let_def)

lemma move_player_frame [simp]:
  "canShoot (move_player s) = canShoot s"
  "shoot_sounds (move_player s) = shoot_sounds s"
  "activePowerUp (move_player s) = activePowerUp s"
  "pu_store (move_player s) = pu_store s"
  "powerUps (move_player s) = powerUps s"
  "pu_stage (move_player s) = pu_stage s"
  "pu_next (move_player s) = pu_next s"
  "player_y (move_player s) = player_y s"
  "lives (move_player s) = lives s"
  "gameOver (move_player s) = gameOver s"
  "currentLevel (move_player s) = currentLevel s"
  "enemySpeed (move_player s) = enemySpeed s"
  "enemies (move_player s) = enemies s"
  "enemyBombs (move_player s) = enemyBombs s"
  "bullets (move_player s) = bullets s"
  "timeouts (move_player s) = timeouts s"
  "explosions (move_player s) = explosions s"
  "space (move_player s) = space s"
  by (simp_all add: move_player_def Let_def)

lemma laser_loop_frame [simp]:
  "canShoot (laser_loop lx n s) = canShoot s"
  "shoot_sounds (laser_loop lx n s) = shoot_sounds s"
  "shootTimer (laser_loop lx n s) = shootTimer s"
  "activePowerUp (laser_loop lx n s) = activePowerUp s"
  "pu_store (laser_loop lx n s) = pu_store s"
  "powerUps (laser_loop lx n s) = powerUps s"
  "pu_stage (laser_loop lx n s) = pu_stage s"
  "pu_next (laser_loop lx n s) = pu_next s"
  "player_x (laser_loop lx n s) = player_x s"
  "player_y (laser_loop lx n s) = player_y s"
  "lives (laser_loop lx n s) = lives s"
  "gameOver (laser_loop lx n s) = gameOver s"
  "currentLevel (laser_loop lx n s) = currentLevel s"
  "enemySpeed (laser_loop lx n s) = enemySpeed s"
  "enemyBombs (laser_loop lx n s) = enemyBombs s"
  "bullets (laser_loop lx n s) = bullets s"
  "timeouts (laser_loop lx n s) = timeouts s"
  by (induction n arbitrary: s; simp add: Let_def)+

lemma fire_frame [simp]:
  "canShoot (fire_laser s) = canShoot s"
  "shoot_sounds (fire_laser s) = shoot_sounds s"
  "shootTimer (fire_laser s) = shootTimer s"
  "activePowerUp (fire_laser s) = activePowerUp s"
  "pu_store (fire_laser s) = pu_store s"
  "canShoot (fire_triple s) = canShoot s"
  "shoot_sounds (fire_triple s) = shoot_sounds s"
  "shootTimer (fire_triple s) = shootTimer s"
  "activePowerUp (fire_triple s) = activePowerUp s"
  "pu_store (fire_triple s) = pu_store s"
  "canShoot (fire_normal s) = canShoot s"
  "shoot_sounds (fire_normal s) = shoot_sounds s"
  "shootTimer (fire_normal s) = shootTimer s"
  "activePowerUp (fire_normal s) = activePowerUp s"
  "pu_store (fire_normal s) = pu_store s"
  by (simp_all add: fire_laser_def fire_triple_def fire_normal_def)

lemma active_type_cong:
  "activePowerUp s' = activePowerUp s \<Longrightarrow> pu_store s' = pu_store s \<Longrightarrow>
   active_type s' = active_type s"
  by (simp add: active_type_def)

lemma active_type_upd [simp]:
  "active_type (currentLevel_update f0 s) = active_type s"
  "active_type (bullets_update f1 s) = active_type s"
  "active_type (lives_update f2 s) = active_type s"
  "active_type (gameOver_update f3 s) = active_type s"
  "active_type (enemySpeed_update f4 s) = active_type s"
  "active_type (enemies_update f5 s) = active_type s"
  "active_type (enemyBombs_update f6 s) = active_type s"
  "active_type (powerUps_update f7 s) = active_type s"
  "active_type (explosions_update f8 s) = active_type s"
  "active_type (left_update f9 s) = active_type s"
  "active_type (right_update f10 s) = active_type s"
  "active_type (space_update f11 s) = active_type s"
  "active_type (canShoot_update f12 s) = active_type s"
  "active_type (shootTimer_update f13 s) = active_type s"
  "active_type (bombDropTimer_update f14 s) = active_type s"
  "active_type (powerUpSpawnTime_update f15 s) = active_type s"
  "active_type (player_x_update f16 s) = active_type s"
  "active_type (player_y_update f17 s) = active_type s"
  "active_type (player_visible_update f18 s) = active_type s"
  "active_type (pu_next_update f19 s) = active_type s"
  "active_type (pu_stage_update f20 s) = active_type s"
  "active_type (timeouts_update f21 s) = active_type s"
  "active_type (shoot_sounds_update f22 s) = active_type s"
  "active_type (fire_laser s) = active_type s"
  "active_type (fire_triple s) = active_type s"
  "active_type (fire_normal s) = active_type s"
  by (simp_all add: active_type_def)







lemma shoot_frame [simp]:
  "activePowerUp (shoot now s) = activePowerUp s"
  "pu_store (shoot now s) = pu_store s"
  "powerUps (shoot now s) = powerUps s"
  "pu_stage (shoot now s) = pu_stage s"
  "pu_next (shoot now s) = pu_next s"
  "player_x (shoot now s) = player_x s"
  "player_y (shoot now s) = player_y s"
  "lives (shoot now s) = lives s"
  "gameOver (shoot now s) = gameOver s"
  "currentLevel (shoot now s) = currentLevel s"
  "enemySpeed (shoot now s) = enemySpeed s"
  "enemyBombs (shoot now s) = enemyBombs s"
  "timeouts (shoot now s) = timeouts s"
  by (simp_all add: shoot_def Let_def fire_laser_def fire_triple_def fire_normal_def)

lemma bullet_step_frame [simp]:
  "canShoot (bullet_step i s) = canShoot s"
  "shoot_sounds (bullet_step i s) = shoot_sounds s"
  "activePowerUp (bullet_step i s) = activePowerUp s"
  "pu_store (bullet_step i s) = pu_store s"
  "powerUps (bullet_step i s) = powerUps s"
  "pu_stage (bullet_step i s) = pu_stage s"
  "pu_next (bullet_step i s) = pu_next s"
  "player_x (bullet_step i s) = player_x s"
  "player_y (bullet_step i s) = player_y s"
  "lives (bullet_step i s) = lives s"
  "gameOver (bullet_step i s) = gameOver s"
  "currentLevel (bullet_step i s) = currentLevel s"
  "enemySpeed (bullet_step i s) = enemySpeed s"
  "enemyBombs (bullet_step i s) = enemyBombs s"
  "timeouts (bullet_step i s) = timeouts s"
  by (simp_all add: bullet_step_def Let_def split: option.split)

lemma bullets_loop_frame [simp]:
  "canShoot (bullets_loop n s) = canShoot s"
  "shoot_sounds (bullets_loop n s) = shoot_sounds s"
  "activePowerUp (bullets_loop n s) = activePowerUp s"
  "pu_store (bullets_loop n s) = pu_store s"
  "powerUps (bullets_loop n s) = powerUps s"
  "pu_stage (bullets_loop n s) = pu_stage s"
  "pu_next (bullets_loop n s) = pu_next s"
  "player_x (bullets_loop n s) = player_x s"
  "player_y (bullets_loop n s) = player_y s"
  "lives (bullets_loop n s) = lives s"
  "gameOver (bullets_loop n s) = gameOver s"
  "currentLevel (bullets_loop n s) = currentLevel s"
  "enemySpeed (bullets_loop n s) = enemySpeed s"
  "enemyBombs (bullets_loop n s) = enemyBombs s"
  "timeouts (bullets_loop n s) = timeouts s"
  by (induction n arbitrary: s; simp)+

lemma dropBomb_frame [simp]:
  "canShoot (dropBomb x y s) = canShoot s"
  "shoot_sounds (dropBomb x y s) = shoot_sounds s"
  "activePowerUp (dropBomb x y s) = activePowerUp s"
  "pu_store (dropBomb x y s) = pu_store s"
  "powerUps (dropBomb x y s) = powerUps s"
  "pu_stage (dropBomb x y s) = pu_stage s"
  "pu_next (dropBomb x y s) = pu_next s"
  "player_x (dropBomb x y s) = player_x s"
  "player_y (dropBomb x y s) = player_y s"
  "lives (dropBomb x y s) = lives s"
  "gameOver (dropBomb x y s) = gameOver s"
  "currentLevel (dropBomb x y s) = currentLevel s"
  "enemySpeed (dropBomb x y s) = enemySpeed s"
  "enemies (dropBomb x y s) = enemies s"
  "bullets (dropBomb x y s) = bullets s"
  "timeouts (dropBomb x y s) = timeouts s"
  "explosions (dropBomb x y s) = explosions s"
  by (simp_all add: dropBomb_def)

lemma drop_bombs_frame [simp]:
  "canShoot (drop_bombs inp s) = canShoot s"
  "shoot_sounds (drop_bombs inp s) = shoot_sounds s"
  "activePowerUp (drop_bombs inp s) = activePowerUp s"
  "pu_store (drop_bombs inp s) = pu_store s"
  "powerUps (drop_bombs inp s) = powerUps s"
  "pu_stage (drop_bombs inp s) = pu_stage s"
  "pu_next (drop_bombs inp s) = pu_next s"
  "player_x (drop_bombs inp s) = player_x s"
  "player_y (drop_bombs inp s) = player_y s"
  "lives (drop_bombs inp s) = lives s"
  "gameOver (drop_bombs inp s) = gameOver s"
  "currentLevel (drop_bombs inp s) = currentLevel s"
  "enemySpeed (drop_bombs inp s) = enemySpeed s"
  "enemies (drop_bombs inp s) = enemies s"
  "bullets (drop_bombs inp s) = bullets s"
  "timeouts (drop_bombs inp s) = timeouts s"
  "explosions (drop_bombs inp s) = explosions s"
  by (simp_all add: drop_bombs_def Let_def)

lemma bombs_loop_frame [simp]:
  "canShoot (snd (bombs_loop n s)) = canShoot s"
  "shoot_sounds (snd (bombs_loop n s)) = shoot_sounds s"
  "activePowerUp (snd (bombs_loop n s)) = activePowerUp s"
  "pu_store (snd (bombs_loop n s)) = pu_store s"
  "powerUps (snd (bombs_loop n s)) = powerUps s"
  "pu_stage (snd (bombs_loop n s)) = pu_stage s"
  "pu_next (snd (bombs_loop n s)) = pu_next s"
  "player_x (snd (bombs_loop n s)) = player_x s"
  "player_y (snd (bombs_loop n s)) = player_y s"
  "lives (snd (bombs_loop n s)) = lives s"
  "gameOver (snd (bombs_loop n s)) = gameOver s"
  "currentLevel (snd (bombs_loop n s)) = currentLevel s"
  "enemySpeed (snd (bombs_loop n s)) = enemySpeed s"
  "enemies (snd (bombs_loop n s)) = enemies s"
  "bullets (snd (bombs_loop n s)) = bullets s"
  by (induction n arbitrary: s; simp add: Let_def)+

lemma lose_life_frame [simp]:
  "canShoot (lose_life s) = canShoot s"
  "shoot_sounds (lose_life s) = shoot_sounds s"
  "activePowerUp (lose_life s) = activePowerUp s"
  "pu_store (lose_life s) = pu_store s"
  "powerUps (lose_life s) = powerUps s"
  "pu_stage (lose_life s) = pu_stage s"
  "pu_next (lose_life s) = pu_next s"
  "player_y (lose_life s) = player_y s"
  "currentLevel (lose_life s) = currentLevel s"
  "enemySpeed (lose_life s) = enemySpeed s"
  "timeouts (lose_life s) = timeouts s"
  "explosions (lose_life s) = explosions s"
  "lives (lose_life s) = lives s - 1"
  by (simp_all add: lose_life_def Let_def)

lemma enemies_forEach_frame [simp]:
  "canShoot (snd (enemies_forEach es i al ntc s)) = canShoot s"
  "shoot_sounds (snd (enemies_forEach es i al ntc s)) = shoot_sounds s"
  "activePowerUp (snd (enemies_forEach es i al ntc s)) = activePowerUp s"
  "pu_store (snd (enemies_forEach es i al ntc s)) = pu_store s"
  "powerUps (snd (enemies_forEach es i al ntc s)) = powerUps s"
  "pu_stage (snd (enemies_forEach es i al ntc s)) = pu_stage s"
  "pu_next (snd (enemies_forEach es i al ntc s)) = pu_next s"
  "player_y (snd (enemies_forEach es i al ntc s)) = player_y s"
  "currentLevel (snd (enemies_forEach es i al ntc s)) = currentLevel s"
  "enemySpeed (snd (enemies_forEach es i al ntc s)) = enemySpeed s"
  "timeouts (snd (enemies_forEach es i al ntc s)) = timeouts s"
  "explosions (snd (enemies_forEach es i al ntc s)) = explosions s"
  by (induction es arbitrary: i al ntc s; simp add: Let_def)+

lemma change_direction_frame [simp]:
  "canShoot (change_direction s) = canShoot s"
  "shoot_sounds (change_direction s) = shoot_sounds s"
  "activePowerUp (change_direction s) = activePowerUp s"
  "pu_store (change_direction s) = pu_store s"
  "powerUps (change_direction s) = powerUps s"
  "pu_stage (change_direction s) = pu_stage s"
  "pu_next (change_direction s) = pu_next s"
  "player_x (change_direction s) = player_x s"
  "player_y (change_direction s) = player_y s"
  "lives (change_direction s) = lives s"
  "gameOver (change_direction s) = gameOver s"
  "currentLevel (change_direction s) = currentLevel s"
  "enemySpeed (change_direction s) = enemySpeed s"
  "enemyBombs (change_direction s) = enemyBombs s"
  "bullets (change_direction s) = bullets s"
  "timeouts (change_direction s) = timeouts s"
  "explosions (change_direction s) = explosions s"
  "length (enemies (change_direction s)) = length (enemies s)"
  by (simp_all add: change_direction_def)

lemma respawn_callback_frame [simp]:
  "canShoot (respawn_callback s) = canShoot s"
  "shoot_sounds (respawn_callback s) = shoot_sounds s"
  "activePowerUp (respawn_callback s) = activePowerUp s"
  "pu_store (respawn_callback s) = pu_store s"
  "powerUps (respawn_callback s) = powerUps s"
  "pu_stage (respawn_callback s) = pu_stage s"
  "pu_next (respawn_callback s) = pu_next s"
  "player_y (respawn_callback s) = player_y s"
  "currentLevel (respawn_callback s) = currentLevel s"
  "enemySpeed (respawn_callback s) = enemySpeed s"
  "lives (respawn_callback s) = lives s - 1"
  by (simp_all add: respawn_callback_def Let_def)

lemma keydown_frame [simp]:
  "canShoot (keydown k s) = canShoot s"
  "shoot_sounds (keydown k s) = shoot_sounds s"
  "activePowerUp (keydown k s) = activePowerUp s"
  "pu_store (keydown k s) = pu_store s"
  "powerUps (keydown k s) = powerUps s"
  "pu_stage (keydown k s) = pu_stage s"
  "pu_next (keydown k s) = pu_next s"
  "player_y (keydown k s) = player_y s"
  by (simp_all add: keydown_def split: key.split)

lemma keyup_frame [simp]:
  "shoot_sounds (keyup k s) = shoot_sounds s"
  "activePowerUp (keyup k s) = activePowerUp s"
  "pu_store (keyup k s) = pu_store s"
  "powerUps (keyup k s) = powerUps s"
  "pu_stage (keyup k s) = pu_stage s"
  "pu_next (keyup k s) = pu_next s"
  "player_x (keyup k s) = player_x s"
  "player_y (keyup k s) = player_y s"
  "lives (keyup k s) = lives s"
  "gameOver (keyup k s) = gameOver s"
  "currentLevel (keyup k s) = currentLevel s"
  "enemies (keyup k s) = enemies s"
  by (simp_all add: keyup_def split: key.split)

lemma frame_to_bombs_frame [simp]:
  "activePowerUp (frame_to_bombs inp s) = activePowerUp (updatePowerUps inp s)"
  "pu_store (frame_to_bombs inp s) = pu_store (updatePowerUps inp s)"
  "powerUps (frame_to_bombs inp s) = powerUps (updatePowerUps inp s)"
  "pu_stage (frame_to_bombs inp s) = pu_stage (updatePowerUps inp s)"
  "pu_next (frame_to_bombs inp s) = pu_next (updatePowerUps inp s)"
  "player_x (frame_to_bombs inp s) = player_x (move_player (updatePowerUps inp s))"
  "player_y (frame_to_bombs inp s) = player_y s"
  "lives (frame_to_bombs inp s) = lives s"
  "gameOver (frame_to_bombs inp s) = gameOver s"
  "currentLevel (frame_to_bombs inp s) = currentLevel s"
  "enemySpeed (frame_to_bombs inp s) = enemySpeed s"
  "timeouts (frame_to_bombs inp s) = timeouts s"
  by (simp_all add: frame_to_bombs_def Let_def)



lemma frame_after_bombs_frame [simp]:
  "canShoot (frame_after_bombs s) = canShoot s"
  "shoot_sounds (frame_after_bombs s) = shoot_sounds s"
  "activePowerUp (frame_after_bombs s) = activePowerUp s"
  "pu_store (frame_after_bombs s) = pu_store s"
  "powerUps (frame_after_bombs s) = powerUps s"
  "pu_stage (frame_after_bombs s) = pu_stage s"
  "pu_next (frame_after_bombs s) = pu_next s"
  "player_y (frame_after_bombs s) = player_y s"
  "timeouts (frame_after_bombs s) = timeouts s"
  "explosions (frame_after_bombs s) = explosions s"
proof -
  obtain ntc s1 where e: "enemies_forEach (enemies s) 0 True False s = (ntc, s1)"
    by (cases "enemies_forEach (enemies s) 0 True False s")
  have s1: "s1 = snd (enemies_forEach (enemies s) 0 True False s)"
    by (simp add: e)
  show "canShoot (frame_after_bombs s) = canShoot s"
    "shoot_sounds (frame_after_bombs s) = shoot_sounds s"
    "activePowerUp (frame_after_bombs s) = activePowerUp s"
    "pu_store (frame_after_bombs s) = pu_store s"
    "powerUps (frame_after_bombs s) = powerUps s"
    "pu_stage (frame_after_bombs s) = pu_stage s"
    "pu_next (frame_after_bombs s) = pu_next s"
    "player_y (frame_after_bombs s) = player_y s"
    "timeouts (frame_after_bombs s) = timeouts s"
    "explosions (frame_after_bombs s) = explosions s"
    by (simp_all add: frame_after_bombs_def e Let_def) (simp_all add: s1)
qed

lemma tick_cases:
  obtains (over) "gameOver s" and "tick inp s = s"
  | (hit) s2 where "\<not> gameOver s"
      and "bombs_loop (length (enemyBombs (frame_to_bombs inp s))) (frame_to_bombs inp s) = (True, s2)"
      and "tick inp s = s2"
  | (nohit) s2 where "\<not> gameOver s"
      and "bombs_loop (length (enemyBombs (frame_to_bombs inp s))) (frame_to_bombs inp s) = (False, s2)"
      and "tick inp s = frame_after_bombs s2"
proof (cases "gameOver s")
  case True
  then show ?thesis using over by (simp add: tick_def)
next
  case False
  obtain h s2 where b: "bombs_loop (length (enemyBombs (frame_to_bombs inp s))) (frame_to_bombs inp s) = (h, s2)"
    by (cases "bombs_loop (length (enemyBombs (frame_to_bombs inp s))) (frame_to_bombs inp s)")
  show ?thesis
  proof (cases h)
    case True
    with False b show ?thesis using hit by (simp add: tick_def Let_def)
  next
    case h: False
    with False b show ?thesis using nohit by (simp add: tick_def Let_def)
  qed
qed

lemma bombs_loop_snd: "bombs_loop n s = (h, s2) \<Longrightarrow> s2 = snd (bombs_loop n s)"
  by simp



lemma tick_frame [simp]:
  "player_y (tick inp s) = player_y s"
  by (cases rule: tick_cases [of s inp]; auto dest!: bombs_loop_snd)+

subsection \<open>The initial state and quiet frames\<close>

lemma player_box_bombs [simp]: "player_box (s\<lparr>enemyBombs := bs\<rparr>) = player_box s"
  by (simp add: player_box_def)

lemma splice1_update [simp]: "splice1 i (xs[i := x]) = splice1 i xs"
  by (simp add: splice1_def)

lemma init_game_fields:
  "currentLevel init_game = 1" "bullets init_game = []" "lives init_game = 3"
  "\<not> gameOver init_game" "enemySpeed init_game = 0.5" "enemyBombs init_game = []"
  "powerUps init_game = []" "explosions init_game = []"
  "\<not> left init_game" "\<not> right init_game" "\<not> space init_game" "canShoot init_game"
  "shootTimer init_game = 0" "bombDropTimer init_game = 0" "activePowerUp init_game = None"
  "powerUpSpawnTime init_game = 0" "player_x init_game = 400" "player_y init_game = 555"
  "player_visible init_game" "pu_next init_game = 0" "pu_stage init_game = {}"
  "timeouts init_game = []" "shoot_sounds init_game = 0"
  by (simp_all add: init_game_def resetGame_def createEnemies_def module_vars_def Let_def
      STARTING_LIVES_def BASE_ENEMY_SPEED_def screen_width_def screen_height_def
      playerHeight_def)

lemma frame_to_bombs_quiet:
  assumes "activePowerUp s = None" and "powerUps s = []"
    and "\<not> now_powerups inp - powerUpSpawnTime s > POWER_UP_SPAWN_INTERVAL"
    and "\<not> left s" and "\<not> right s" and "\<not> space s" and "bullets s = []"
    and "\<not> real (Suc (bombDropTimer s)) \<ge> BOMB_DROP_INTERVAL / (1 + real_of_int (currentLevel s) * 0.2)"
  shows "frame_to_bombs inp s = s\<lparr>bombDropTimer := Suc (bombDropTimer s)\<rparr>"
  using assms
  by (simp add: frame_to_bombs_def updatePowerUps_def spawn_powerup_def expire_powerup_def
      move_player_def drop_bombs_def Let_def)


subsection \<open>Frames without input, and the last enemy shot\<close>

lemma frame_to_bombs_no_input:
  assumes "activePowerUp s = None" and "powerUps s = []"
    and "\<not> now_powerups inp - powerUpSpawnTime s > POWER_UP_SPAWN_INTERVAL"
    and "\<not> left s" and "\<not> right s" and "\<not> space s"
  shows "frame_to_bombs inp s = drop_bombs inp (bullets_loop (length (bullets s)) s)"
  using assms
  by (simp add: frame_to_bombs_def updatePowerUps_def spawn_powerup_def expire_powerup_def
      move_player_def Let_def)

lemma bombs_loop_last_hits:
  assumes "enemyBombs s = bs @ [b]" and "\<not> bomb_y (move_bomb b) > screen_height"
    and "checkCollision (player_box s) (bomb_box (move_bomb b))"
  shows "bombs_loop (Suc (length bs)) s =
           (True, (createExplosion (player_x s + playerWidth / 2)
                                   (player_y s + playerHeight / 2) 0.3 s)
                    \<lparr>enemyBombs := bs, player_visible := False,
                     timeouts := timeouts s @ [RESPAWN_DELAY]\<rparr>)"
  using assms by (simp add: Let_def splice1_def createExplosion_def)

lemma tick_hit:
  assumes "\<not> gameOver s"
    and "bombs_loop (length (enemyBombs (frame_to_bombs inp s))) (frame_to_bombs inp s) = (True, s2)"
  shows "tick inp s = s2"
  using assms by (simp add: tick_def Let_def)

lemma tick_miss:
  assumes "\<not> gameOver s"
    and "bombs_loop (length (enemyBombs (frame_to_bombs inp s))) (frame_to_bombs inp s) = (False, s2)"
  shows "tick inp s = frame_after_bombs s2"
  using assms by (simp add: tick_def Let_def)

lemma frame_after_bombs_empty:
  "enemies s = [] \<Longrightarrow> frame_after_bombs s = nextLevel (s\<lparr>enemyBombs := []\<rparr>)"
  by (simp add: frame_after_bombs_def)

lemma last_enemy_shot:
  assumes "activePowerUp s = None" and "powerUps s = []" and "powerUpSpawnTime s = 0"
    and "\<not> left s" and "\<not> right s" and "\<not> space s" and "bombDropTimer s = 0"
    and "bullets s = [\<lparr>bullet_x = 110, bullet_y = 70, angle = None, dx = None,
                       dy = None, bounceCount = None\<rparr>]"
    and "enemies s = [new_enemy 0 0]"
  shows "enemies (frame_to_bombs input0 s) = []"
    and "enemyBombs (frame_to_bombs input0 s) = enemyBombs s"
proof -
  have q: "frame_to_bombs input0 s = drop_bombs input0 (bullets_loop (length (bullets s)) s)"
    by (rule frame_to_bombs_no_input)
       (simp_all add: assms input0_def POWER_UP_SPAWN_INTERVAL_def)
  have m: "move_bullet \<lparr>bullet_x = 110, bullet_y = 70, angle = None, dx = None,
                           dy = None, bounceCount = None\<rparr>
           = Some \<lparr>bullet_x = 110, bullet_y = 63, angle = None, dx = None,
                           dy = None, bounceCount = None\<rparr>"
    by (simp add: move_bullet_def BULLET_SPEED_def screen_height_def)
  have h: "checkCollision (bullet_box \<lparr>bullet_x = 110, bullet_y = 63, angle = None, dx = None,
                           dy = None, bounceCount = None\<rparr>) (enemy_box (new_enemy 0 0))"
    by (simp add: bullet_box_def new_enemy_def enemy_box_def enemy_width_def enemy_height_def
        checkCollision_def)
  have e: "enemies (bullet_step 0 s) = []"
    by (simp add: bullet_step_def assms m h Let_def splice1_def)
  show "enemies (frame_to_bombs input0 s) = []"
    unfolding q by (simp add: assms e)
  show "enemyBombs (frame_to_bombs input0 s) = enemyBombs s"
    unfolding q by (simp add: assms e drop_bombs_def Let_def)
qed

lemma level_skip_state_fields:
  "activePowerUp level_skip_state = None" "powerUps level_skip_state = []"
  "powerUpSpawnTime level_skip_state = 0" "\<not> left level_skip_state"
  "\<not> right level_skip_state" "\<not> space level_skip_state"
  "bombDropTimer level_skip_state = 0"
  "bullets level_skip_state = [\<lparr>bullet_x = 110, bullet_y = 70, angle = None, dx = None,
                       dy = None, bounceCount = None\<rparr>]"
  "enemies level_skip_state = [new_enemy 0 0]"
  "enemyBombs level_skip_state = [\<lparr>bomb_x = 120, bomb_y = 100\<rparr>, \<lparr>bomb_x = 420, bomb_y = 540\<rparr>]"
  "\<not> gameOver level_skip_state" "currentLevel level_skip_state = 1"
  "player_x level_skip_state = 400" "player_y level_skip_state = 555"
  "lives level_skip_state = 3"
  by (simp_all add: level_skip_state_def bomb_hit_state_def init_game_fields)

lemma player_box_frame_to_bombs:
  "\<not> left s \<Longrightarrow> \<not> right s \<Longrightarrow> player_box (frame_to_bombs inp s) = player_box s"
  by (simp add: player_box_def move_player_def)


lemma bomb_hit_state_frame:
  "frame_to_bombs input0 bomb_hit_state = bomb_hit_state\<lparr>bombDropTimer := 1\<rparr>"
proof -
  have "frame_to_bombs input0 bomb_hit_state
        = bomb_hit_state\<lparr>bombDropTimer := Suc (bombDropTimer bomb_hit_state)\<rparr>"
    by (rule frame_to_bombs_quiet)
       (simp_all add: bomb_hit_state_def init_game_fields input0_def
          POWER_UP_SPAWN_INTERVAL_def BOMB_DROP_INTERVAL_def)
  then show ?thesis by (simp add: bomb_hit_state_def init_game_fields)
qed

lemma bomb_hit_state_tick:
  "tick input0 bomb_hit_state =
     (createExplosion 420 567.5 0.3 (bomb_hit_state\<lparr>bombDropTimer := 1\<rparr>))
       \<lparr>enemyBombs := [\<lparr>bomb_x = 120, bomb_y = 100\<rparr>], player_visible := False,
        timeouts := [RESPAWN_DELAY]\<rparr>"
proof -
  let ?F = "frame_to_bombs input0 bomb_hit_state"
  have f: "\<not> gameOver bomb_hit_state" "player_x bomb_hit_state = 400"
    "player_y bomb_hit_state = 555" "timeouts bomb_hit_state = []"
    "enemyBombs bomb_hit_state = [\<lparr>bomb_x = 120, bomb_y = 100\<rparr>, \<lparr>bomb_x = 420, bomb_y = 540\<rparr>]"
    by (simp_all add: bomb_hit_state_def init_game_fields)
  have eb: "enemyBombs ?F = [\<lparr>bomb_x = 120, bomb_y = 100\<rparr>] @ [\<lparr>bomb_x = 420, bomb_y = 540\<rparr>]"
    and pb: "player_x ?F = 400" "player_y ?F = 555" "timeouts ?F = []"
    unfolding bomb_hit_state_frame by (simp_all add: f)
  have "bombs_loop (Suc (length [\<lparr>bomb_x = 120, bomb_y = 100\<rparr>])) ?F =
           (True, (createExplosion (player_x ?F + playerWidth / 2)
                                   (player_y ?F + playerHeight / 2) 0.3 ?F)
                    \<lparr>enemyBombs := [\<lparr>bomb_x = 120, bomb_y = 100\<rparr>], player_visible := False,
                     timeouts := timeouts ?F @ [RESPAWN_DELAY]\<rparr>)"
    by (rule bombs_loop_last_hits [OF eb])
       (simp_all add: player_box_def pb move_bomb_def BOMB_SPEED_def screen_height_def
          checkCollision_def bomb_box_def cannonHeight_def playerWidth_def playerHeight_def
          del: frame_to_bombs_frame)
  then have "tick input0 bomb_hit_state =
      (createExplosion (player_x ?F + playerWidth / 2)
                                   (player_y ?F + playerHeight / 2) 0.3 ?F)
                    \<lparr>enemyBombs := [\<lparr>bomb_x = 120, bomb_y = 100\<rparr>], player_visible := False,
                     timeouts := timeouts ?F @ [RESPAWN_DELAY]\<rparr>"
    by (intro tick_hit [OF f(1)]) (simp add: eb)
  then show ?thesis
    unfolding pb by (simp add: bomb_hit_state_frame playerWidth_def playerHeight_def)
qed

lemma level_clear_state_fields:
  "activePowerUp level_clear_state = None" "powerUps level_clear_state = []"
  "powerUpSpawnTime level_clear_state = 0" "\<not> left level_clear_state"
  "\<not> right level_clear_state" "\<not> space level_clear_state"
  "bombDropTimer level_clear_state = 0"
  "bullets level_clear_state = [\<lparr>bullet_x = 110, bullet_y = 70, angle = None, dx = None,
                       dy = None, bounceCount = None\<rparr>]"
  "enemies level_clear_state = [new_enemy 0 0]"
  "enemyBombs level_clear_state = [\<lparr>bomb_x = 120, bomb_y = 100\<rparr>]"
  "\<not> gameOver level_clear_state" "currentLevel level_clear_state = 1"
  "player_x level_clear_state = 400" "player_y level_clear_state = 555"
  "lives level_clear_state = 3"
  by (simp_all add: level_clear_state_def level_skip_state_fields)

lemma level_clear_frame:
  "enemies (frame_to_bombs input0 level_clear_state) = []"
  "\<not> fst (bombs_loop (length (enemyBombs (frame_to_bombs input0 level_clear_state)))
            (frame_to_bombs input0 level_clear_state))"
proof -
  let ?s = level_clear_state
  note f = level_clear_state_fields
  note fr = last_enemy_shot [OF f(1-9)]
  have pb: "player_box (frame_to_bombs input0 ?s)
            = \<lparr>box_x = 400, box_y = 543, box_width = 40, box_height = 37\<rparr>"
    by (simp add: player_box_frame_to_bombs f)
       (simp add: player_box_def f cannonHeight_def playerWidth_def playerHeight_def)
  show "enemies (frame_to_bombs input0 ?s) = []" by (rule fr(1))
  show "\<not> fst (bombs_loop (length (enemyBombs (frame_to_bombs input0 ?s)))
            (frame_to_bombs input0 ?s))"
    unfolding fr(2) f(10)
    by (simp add: Let_def fr(2) f(10) pb move_bomb_def BOMB_SPEED_def screen_height_def
        checkCollision_def bomb_box_def)
qed

subsection \<open>Shooting: latch and cooldown\<close>




lemma shoot_active_type [simp]: "active_type (shoot now s) = active_type s"
  by (rule active_type_cong) simp_all

lemma key_space_state [simp]:
  "space (keydown KeySpace s) = (\<not> gameOver s \<or> space s)"
  "gameOver (keydown KeySpace s) = gameOver s"
  "active_type (keydown k s) = active_type s"
  "active_type (keyup k s) = active_type s"
  "canShoot (keyup KeySpace s) = True"
  "shootTimer (keydown KeySpace s) = shootTimer s"
  "shootTimer (keyup KeySpace s) = shootTimer s"
  "bullets (keydown KeySpace s) = bullets s"
  by (simp_all add: keydown_def keyup_def active_type_def split: key.split)




subsection \<open>The player stays on the screen\<close>

lemma on_grid_centre: "on_grid (screen_width / 2)"
  unfolding on_grid_def
  by (rule exI [of _ 80]) (simp add: PLAYER_SPEED_def screen_width_def player_width_def playerWidth_def)

lemma on_grid_bounds: "on_grid x \<Longrightarrow> 0 \<le> x \<and> x \<le> screen_width - player_width"
  by (auto simp: on_grid_def PLAYER_SPEED_def)

lemma on_grid_left: 
  assumes "on_grid x" and "x > 0" shows "on_grid (x - PLAYER_SPEED)"
proof -
  from assms obtain k :: nat where k: "x = PLAYER_SPEED * real k" and b: "x \<le> screen_width - player_width"
    by (auto simp: on_grid_def)
  from k \<open>x > 0\<close> have "k > 0" by (cases k) (simp_all add: PLAYER_SPEED_def)
  then have "x - PLAYER_SPEED = PLAYER_SPEED * real (k - 1)"
    using k by (simp add: algebra_simps)
  moreover have "x - PLAYER_SPEED \<le> screen_width - player_width"
    using b by (simp add: PLAYER_SPEED_def)
  ultimately show ?thesis unfolding on_grid_def by blast
qed

lemma on_grid_right: 
  assumes "on_grid x" and "x < screen_width - player_width" shows "on_grid (x + PLAYER_SPEED)"
proof -
  from assms obtain k :: nat where k: "x = PLAYER_SPEED * real k"
    by (auto simp: on_grid_def)
  from k assms(2) have "real k < 152"
    by (simp add: PLAYER_SPEED_def screen_width_def player_width_def playerWidth_def)
  then have "k < 152" by simp
  then have "real k \<le> real 151" by (intro of_nat_mono) simp
  then have "real (Suc k) \<le> 152" by simp
  then have "x + PLAYER_SPEED \<le> screen_width - player_width"
    using k by (simp add: PLAYER_SPEED_def screen_width_def player_width_def playerWidth_def)
  moreover have "x + PLAYER_SPEED = PLAYER_SPEED * real (Suc k)"
    using k by (simp add: algebra_simps)
  ultimately show ?thesis unfolding on_grid_def by blast
qed

lemma move_player_on_grid: "on_grid (player_x s) \<Longrightarrow> on_grid (player_x (move_player s))"
  by (simp add: move_player_def Let_def on_grid_left on_grid_right)

lemma move_player_clamp:
  assumes "on_grid (player_x s)"
  shows "player_x (move_player s) =
     (let x1 = (if left s then max 0 (player_x s - PLAYER_SPEED) else player_x s)
      in if right s then min (screen_width - player_width) (x1 + PLAYER_SPEED) else x1)"
proof -
  have l: "max 0 (x - PLAYER_SPEED) = (if x > 0 then x - PLAYER_SPEED else x)" if "on_grid x" for x
  proof (cases "x > 0")
    case True
    with that have "0 \<le> x - PLAYER_SPEED" using on_grid_left on_grid_bounds by blast
    with True show ?thesis by simp
  next
    case False
    with that have "x = 0" using on_grid_bounds [of x] by simp
    then show ?thesis by (simp add: PLAYER_SPEED_def)
  qed
  have r: "min (screen_width - player_width) (x + PLAYER_SPEED) =
      (if x < screen_width - player_width then x + PLAYER_SPEED else x)" if "on_grid x" for x
  proof (cases "x < screen_width - player_width")
    case True
    with that have "x + PLAYER_SPEED \<le> screen_width - player_width"
      using on_grid_right on_grid_bounds by blast
    with True show ?thesis by simp
  next
    case False
    with that have "x = screen_width - player_width" using on_grid_bounds [of x] by simp
    then show ?thesis by (simp add: PLAYER_SPEED_def)
  qed
  have g1: "on_grid (if left s \<and> player_x s > 0 then player_x s - PLAYER_SPEED else player_x s)"
    using assms by (simp add: on_grid_left)
  have p: "0 < PLAYER_SPEED" by (simp add: PLAYER_SPEED_def)
  show ?thesis
    using l [OF assms] r [OF g1] r [OF assms] on_grid_bounds [OF assms] p
    by (auto simp: move_player_def Let_def)
qed

lemma lose_life_on_grid: "on_grid (player_x s) \<Longrightarrow> on_grid (player_x (lose_life s))"
  by (simp add: lose_life_def Let_def on_grid_centre)

lemma enemies_forEach_on_grid:
  "on_grid (player_x s) \<Longrightarrow> on_grid (player_x (snd (enemies_forEach es i al ntc s)))"
  by (induction es arbitrary: i al ntc s) (simp_all add: Let_def lose_life_on_grid)

lemma frame_after_bombs_on_grid:
  assumes "on_grid (player_x s)" shows "on_grid (player_x (frame_after_bombs s))"
proof -
  obtain ntc s1 where e: "enemies_forEach (enemies s) 0 True False s = (ntc, s1)"
    by (cases "enemies_forEach (enemies s) 0 True False s")
  then have "s1 = snd (enemies_forEach (enemies s) 0 True False s)" by simp
  with assms have "on_grid (player_x s1)" by (simp add: enemies_forEach_on_grid)
  then show ?thesis by (simp add: frame_after_bombs_def e Let_def)
qed

lemma tick_on_grid: 
  assumes "on_grid (player_x s)" shows "on_grid (player_x (tick inp s))"
proof (cases rule: tick_cases [of s inp])
  case over
  with assms show ?thesis by simp
next
  case (hit s2)
  from hit(2) have "player_x s2 = player_x (move_player (updatePowerUps inp s))"
    by (auto dest!: bombs_loop_snd)
  with hit(3) assms show ?thesis by (simp add: move_player_on_grid)
next
  case (nohit s2)
  from nohit(2) have "player_x s2 = player_x (move_player (updatePowerUps inp s))"
    by (auto dest!: bombs_loop_snd)
  with assms have "on_grid (player_x s2)" by (simp add: move_player_on_grid)
  with nohit(3) show ?thesis by (simp add: frame_after_bombs_on_grid)
qed

lemma step_on_grid: 
  assumes "on_grid (player_x s)" shows "on_grid (player_x (step ev s))"
proof (cases ev)
  case (Tick inp)
  with assms show ?thesis by (simp add: step_def tick_on_grid)
next
  case (KeyDown k)
  with assms show ?thesis
    by (simp add: step_def keydown_def on_grid_centre split: key.split)
next
  case (KeyUp k)
  with assms show ?thesis by (simp add: step_def)
next
  case Timeout
  with assms show ?thesis
    by (simp add: step_def respawn_callback_def Let_def on_grid_centre split: list.split)
qed

lemma reachable_on_grid: "reachable s \<Longrightarrow> on_grid (player_x s)"
  by (induction rule: reachable.induct) (simp_all add: init_game_def on_grid_centre step_on_grid)

text \<open>
  Claim C9. In every state the program can reach, the movement step of a frame moves the
  player by \<open>PLAYER_SPEED\<close> to the left when the left flag is set and by
  \<open>PLAYER_SPEED\<close> to the right when the right flag is set, each clamped to the bounds:
  what the guarded assignments of the source compute is the clamped position, and the
  player's \<open>x\<close> lies within \<open>[0, screen_width - player_width]\<close> before and after the
  step.
\<close>

theorem player_stays_on_screen:
  assumes "reachable s"
  shows "0 \<le> player_x (move_player s) \<and>
         player_x (move_player s) \<le> screen_width - player_width \<and>
         player_x (move_player s) =
           (let x1 = (if left s then max 0 (player_x s - PLAYER_SPEED) else player_x s)
            in if right s then min (screen_width - player_width) (x1 + PLAYER_SPEED) else x1) \<and>
         0 \<le> player_x s \<and> player_x s \<le> screen_width - player_width"
proof -
  from assms have g: "on_grid (player_x s)" by (rule reachable_on_grid)
  then have "on_grid (player_x (move_player s))" by (rule move_player_on_grid)
  with g show ?thesis
    using on_grid_bounds move_player_clamp [OF g] by blast
qed

theorem player_stays_on_screen_witness:
  "reachable (run [KeyDown ArrowRight] init_game) \<and>
   player_x (run [KeyDown ArrowRight] init_game) = 400 \<and>
   player_x (move_player (run [KeyDown ArrowRight] init_game)) = 405 \<and>
   0 \<le> player_x (move_player (run [KeyDown ArrowRight] init_game)) \<and>
   player_x (move_player (run [KeyDown ArrowRight] init_game)) \<le> screen_width - player_width"
proof -
  let ?s = "run [KeyDown ArrowRight] init_game"
  have r: "reachable ?s"
    using reachable_step [OF reachable_init, of "KeyDown ArrowRight"] by simp
  have f: "player_x ?s = 400" "right ?s" "\<not> left ?s"
    by (simp_all add: step_def keydown_def init_game_def screen_width_def resetGame_def
        createEnemies_def module_vars_def Let_def)
  from player_stays_on_screen [OF r] f r show ?thesis
    by (simp add: Let_def PLAYER_SPEED_def screen_width_def player_width_def playerWidth_def)
qed

subsection \<open>Triple-shot bullets\<close>



subsection \<open>A bomb hit ends the frame\<close>

lemma take_Suc_map_filter:
  "n < length B \<Longrightarrow>
   filter P (map f (take (Suc n) B)) = filter P (map f (take n B)) @ (if P (f (B ! n)) then [f (B ! n)] else [])"
  by (simp add: take_Suc_conv_app_nth)

lemma bombs_loop_miss:
  assumes "bombs_loop n s = (False, s')" and "n \<le> length (enemyBombs s)"
  shows "s' = s\<lparr>enemyBombs :=
                  filter (\<lambda>b. \<not> bomb_y b > screen_height) (map move_bomb (take n (enemyBombs s)))
                  @ drop n (enemyBombs s)\<rparr> \<and>
         (\<forall>k < n. bomb_y (move_bomb (enemyBombs s ! k)) > screen_height \<or>
                  \<not> checkCollision (player_box s) (bomb_box (move_bomb (enemyBombs s ! k))))"
  using assms
proof (induction n arbitrary: s)
  case 0
  then show ?case by simp
next
  case (Suc n)
  let ?B = "enemyBombs s"
  let ?b = "move_bomb (?B ! n)"
  from Suc.prems have n: "n < length ?B" by simp
  show ?case
  proof (cases "bomb_y ?b > screen_height")
    case True
    let ?s1 = "s\<lparr>enemyBombs := splice1 n ?B\<rparr>"
    from Suc.prems True have r: "bombs_loop n ?s1 = (False, s')"
      by (simp add: Let_def)
    have l: "n \<le> length (enemyBombs ?s1)" using n by (simp add: splice1_def)
    have t: "take n (splice1 n ?B) = take n ?B" "drop n (splice1 n ?B) = drop (Suc n) ?B"
      using n by (simp_all add: splice1_def)
    have k: "splice1 n ?B ! k = ?B ! k" if "k < n" for k
      using that n by (simp add: splice1_def nth_append)
    from Suc.IH [OF r l] True n show ?thesis
      by (auto simp: t k take_Suc_map_filter less_Suc_eq)
  next
    case False
    let ?s1 = "s\<lparr>enemyBombs := ?B[n := ?b]\<rparr>"
    from Suc.prems False have c: "\<not> checkCollision (player_box s) (bomb_box ?b)"
      by (auto simp: Let_def split: if_splits)
    with Suc.prems False have r: "bombs_loop n ?s1 = (False, s')"
      by (simp add: Let_def)
    have l: "n \<le> length (enemyBombs ?s1)" using n by simp
    have t: "drop n (?B[n := ?b]) = ?b # drop (Suc n) ?B"
      using n by (simp add: Cons_nth_drop_Suc [symmetric])
    from Suc.IH [OF r l] False c n show ?thesis
      by (auto simp: t take_Suc_map_filter less_Suc_eq)
  qed
qed


lemma drop_take_Suc:
  "j < n \<Longrightarrow> n < length B \<Longrightarrow>
   drop (Suc j) (take (Suc n) B) = drop (Suc j) (take n B) @ [B ! n]"
  by (simp add: take_Suc_conv_app_nth)

lemma bombs_loop_hit:
  assumes "bombs_loop n s = (True, s')" and "n \<le> length (enemyBombs s)"
  shows "\<exists>j<n. \<not> bomb_y (move_bomb (enemyBombs s ! j)) > screen_height \<and>
           checkCollision (player_box s) (bomb_box (move_bomb (enemyBombs s ! j))) \<and>
           (\<forall>k. j < k \<and> k < n \<longrightarrow>
              bomb_y (move_bomb (enemyBombs s ! k)) > screen_height \<or>
              \<not> checkCollision (player_box s) (bomb_box (move_bomb (enemyBombs s ! k)))) \<and>
           s' = (createExplosion (player_x s + playerWidth / 2)
                                 (player_y s + playerHeight / 2) 0.3 s)
                  \<lparr>enemyBombs := take j (enemyBombs s)
                     @ filter (\<lambda>b. \<not> bomb_y b > screen_height)
                         (map move_bomb (drop (Suc j) (take n (enemyBombs s))))
                     @ drop n (enemyBombs s),
                   player_visible := False,
                   timeouts := timeouts s @ [RESPAWN_DELAY]\<rparr>"
  using assms
proof (induction n arbitrary: s)
  case 0
  then show ?case by simp
next
  case (Suc n)
  let ?B = "enemyBombs s"
  let ?b = "move_bomb (?B ! n)"
  from Suc.prems have n: "n < length ?B" by simp
  show ?case
  proof (cases "bomb_y ?b > screen_height")
    case True
    let ?s1 = "s\<lparr>enemyBombs := splice1 n ?B\<rparr>"
    from Suc.prems True have r: "bombs_loop n ?s1 = (True, s')"
      by (simp add: Let_def)
    have l: "n \<le> length (enemyBombs ?s1)" using n by (simp add: splice1_def)
    from Suc.IH [OF r l] obtain j where j: "j < n"
      and h: "\<not> bomb_y (move_bomb (splice1 n ?B ! j)) > screen_height"
        "checkCollision (player_box s) (bomb_box (move_bomb (splice1 n ?B ! j)))"
      and a: "\<forall>k. j < k \<and> k < n \<longrightarrow>
              bomb_y (move_bomb (splice1 n ?B ! k)) > screen_height \<or>
              \<not> checkCollision (player_box s) (bomb_box (move_bomb (splice1 n ?B ! k)))"
      and e: "s' = (createExplosion (player_x s + playerWidth / 2)
                                 (player_y s + playerHeight / 2) 0.3 ?s1)
                  \<lparr>enemyBombs := take j (splice1 n ?B)
                     @ filter (\<lambda>b. \<not> bomb_y b > screen_height)
                         (map move_bomb (drop (Suc j) (take n (splice1 n ?B))))
                     @ drop n (splice1 n ?B),
                   player_visible := False,
                   timeouts := timeouts s @ [RESPAWN_DELAY]\<rparr>"
      by auto
    have t: "take n (splice1 n ?B) = take n ?B" "drop n (splice1 n ?B) = drop (Suc n) ?B"
      "take j (splice1 n ?B) = take j ?B"
      using n j by (simp_all add: splice1_def)
    have k: "splice1 n ?B ! k = ?B ! k" if "k < n" for k
      using that n by (simp add: splice1_def nth_append)
    have "j < Suc n" using j by simp
    moreover have "\<not> bomb_y (move_bomb (?B ! j)) > screen_height"
      "checkCollision (player_box s) (bomb_box (move_bomb (?B ! j)))"
      using h j by (simp_all add: k)
    moreover have "\<forall>k. j < k \<and> k < Suc n \<longrightarrow>
              bomb_y (move_bomb (?B ! k)) > screen_height \<or>
              \<not> checkCollision (player_box s) (bomb_box (move_bomb (?B ! k)))"
      using a True by (auto simp: k less_Suc_eq)
    moreover have "s' = (createExplosion (player_x s + playerWidth / 2)
                                 (player_y s + playerHeight / 2) 0.3 s)
                  \<lparr>enemyBombs := take j ?B
                     @ filter (\<lambda>b. \<not> bomb_y b > screen_height)
                         (map move_bomb (drop (Suc j) (take (Suc n) ?B)))
                     @ drop (Suc n) ?B,
                   player_visible := False,
                   timeouts := timeouts s @ [RESPAWN_DELAY]\<rparr>"
      using e True by (simp add: t drop_take_Suc [OF j n] createExplosion_def)
    ultimately show ?thesis by blast
  next
    case False
    note off = False
    show ?thesis
    proof (cases "checkCollision (player_box s) (bomb_box ?b)")
      case True
      with Suc.prems off
      have "s' = (createExplosion (player_x s + playerWidth / 2)
                                 (player_y s + playerHeight / 2) 0.3 s)
                  \<lparr>enemyBombs := take n ?B
                     @ filter (\<lambda>b. \<not> bomb_y b > screen_height)
                         (map move_bomb (drop (Suc n) (take (Suc n) ?B)))
                     @ drop (Suc n) ?B,
                   player_visible := False,
                   timeouts := timeouts s @ [RESPAWN_DELAY]\<rparr>"
        by (simp add: Let_def createExplosion_def splice1_def)
      with True off show ?thesis by auto
    next
      case False
      let ?s1 = "s\<lparr>enemyBombs := ?B[n := ?b]\<rparr>"
      from Suc.prems off False have r: "bombs_loop n ?s1 = (True, s')"
        by (simp add: Let_def)
      have l: "n \<le> length (enemyBombs ?s1)" using n by simp
      from Suc.IH [OF r l] obtain j where j: "j < n"
        and h: "\<not> bomb_y (move_bomb (?B[n := ?b] ! j)) > screen_height"
          "checkCollision (player_box s) (bomb_box (move_bomb (?B[n := ?b] ! j)))"
        and a: "\<forall>k. j < k \<and> k < n \<longrightarrow>
              bomb_y (move_bomb (?B[n := ?b] ! k)) > screen_height \<or>
              \<not> checkCollision (player_box s) (bomb_box (move_bomb (?B[n := ?b] ! k)))"
        and e: "s' = (createExplosion (player_x s + playerWidth / 2)
                                 (player_y s + playerHeight / 2) 0.3 ?s1)
                  \<lparr>enemyBombs := take j (?B[n := ?b])
                     @ filter (\<lambda>b. \<not> bomb_y b > screen_height)
                         (map move_bomb (drop (Suc j) (take n (?B[n := ?b]))))
                     @ drop n (?B[n := ?b]),
                   player_visible := False,
                   timeouts := timeouts s @ [RESPAWN_DELAY]\<rparr>"
        by auto
      have t: "drop n (?B[n := ?b]) = ?b # drop (Suc n) ?B"
        using n by (simp add: Cons_nth_drop_Suc [symmetric])
      have "j < Suc n" using j by simp
      moreover have "\<not> bomb_y (move_bomb (?B ! j)) > screen_height"
        "checkCollision (player_box s) (bomb_box (move_bomb (?B ! j)))"
        using h j by simp_all
      moreover have "\<forall>k. j < k \<and> k < Suc n \<longrightarrow>
              bomb_y (move_bomb (?B ! k)) > screen_height \<or>
              \<not> checkCollision (player_box s) (bomb_box (move_bomb (?B ! k)))"
        using a False by (auto simp: less_Suc_eq)
      moreover have "s' = (createExplosion (player_x s + playerWidth / 2)
                                 (player_y s + playerHeight / 2) 0.3 s)
                  \<lparr>enemyBombs := take j ?B
                     @ filter (\<lambda>b. \<not> bomb_y b > screen_height)
                         (map move_bomb (drop (Suc j) (take (Suc n) ?B)))
                     @ drop (Suc n) ?B,
                   player_visible := False,
                   timeouts := timeouts s @ [RESPAWN_DELAY]\<rparr>"
        using e off j by (simp add: t drop_take_Suc [OF j n] createExplosion_def)
      ultimately show ?thesis by blast
    qed
  qed
qed

lemma respawn_callback_decision:
  "gameOver (respawn_callback s) \<longleftrightarrow> lives s - 1 \<le> 0"
  by (simp add: respawn_callback_def Let_def)

text \<open>
  Claim C10. When, in a frame of a running game, some bomb collides with the player after
  its move, the frame ends in the bomb loop: the colliding bomb with the highest index is
  removed, one explosion is spawned at the player's centre, the player is hidden and one
  respawn callback is registered with a delay of 500 ms. The bombs below that index are
  left as they were (not moved), the bombs above it have been moved (and removed where
  they left the screen); the enemies are as the bullet pass left them (not moved, not
  checked against the player), and the level is not advanced. Lives and the game-over
  flag are untouched by the frame; the callback, when the timer runs it, takes the life
  and decides between respawn and game over.
\<close>

theorem bomb_hit_ends_frame:
  assumes "\<not> gameOver s"
    and "i < length (enemyBombs (frame_to_bombs inp s))"
    and "\<not> bomb_y (move_bomb (enemyBombs (frame_to_bombs inp s) ! i)) > screen_height"
    and "checkCollision (player_box (frame_to_bombs inp s))
           (bomb_box (move_bomb (enemyBombs (frame_to_bombs inp s) ! i)))"
  shows "let s1 = frame_to_bombs inp s; B = enemyBombs s1; s' = tick inp s
         in (\<exists>j. i \<le> j \<and> j < length B \<and>
               checkCollision (player_box s1) (bomb_box (move_bomb (B ! j))) \<and>
               enemyBombs s' =
                 take j B @ filter (\<lambda>b. \<not> bomb_y b > screen_height)
                              (map move_bomb (drop (Suc j) B))) \<and>
            explosions s' =
              explosions s1 @ [\<lparr>explosion_x = player_x s1 + playerWidth / 2,
                                explosion_y = player_y s1 + playerHeight / 2,
                                explosion_volume = 0.3\<rparr>] \<and>
            \<not> player_visible s' \<and>
            timeouts s' = timeouts s @ [RESPAWN_DELAY] \<and> RESPAWN_DELAY = 500 \<and>
            enemies s' = enemies s1 \<and>
            currentLevel s' = currentLevel s \<and>
            lives s' = lives s \<and> \<not> gameOver s' \<and>
            lives (step Timeout s') = lives s - 1 \<and>
            (gameOver (step Timeout s') \<longleftrightarrow> lives s - 1 \<le> 0)"
proof -
  let ?s1 = "frame_to_bombs inp s"
  let ?B = "enemyBombs ?s1"
  obtain h s2 where b: "bombs_loop (length ?B) ?s1 = (h, s2)"
    by (cases "bombs_loop (length ?B) ?s1")
  have h: h
  proof (rule ccontr)
    assume "\<not> h"
    with b have "bombs_loop (length ?B) ?s1 = (False, s2)" by simp
    from bombs_loop_miss [OF this] assms(2,3,4) show False by auto
  qed
  with b have hit: "bombs_loop (length ?B) ?s1 = (True, s2)" by simp
  with assms(1) have t: "tick inp s = s2"
    by (simp add: tick_def Let_def)
  from bombs_loop_hit [OF hit] obtain j where j: "j < length ?B"
    and c: "checkCollision (player_box ?s1) (bomb_box (move_bomb (?B ! j)))"
    and a: "\<forall>k. j < k \<and> k < length ?B \<longrightarrow>
              bomb_y (move_bomb (?B ! k)) > screen_height \<or>
              \<not> checkCollision (player_box ?s1) (bomb_box (move_bomb (?B ! k)))"
    and e: "s2 = (createExplosion (player_x ?s1 + playerWidth / 2)
                                 (player_y ?s1 + playerHeight / 2) 0.3 ?s1)
                  \<lparr>enemyBombs := take j ?B
                     @ filter (\<lambda>b. \<not> bomb_y b > screen_height)
                         (map move_bomb (drop (Suc j) (take (length ?B) ?B)))
                     @ drop (length ?B) ?B,
                   player_visible := False,
                   timeouts := timeouts ?s1 @ [RESPAWN_DELAY]\<rparr>"
    by auto
  have ij: "i \<le> j"
  proof (rule ccontr)
    assume "\<not> i \<le> j"
    with assms(2) have "j < i \<and> i < length ?B" by simp
    with a have "bomb_y (move_bomb (?B ! i)) > screen_height \<or>
        \<not> checkCollision (player_box ?s1) (bomb_box (move_bomb (?B ! i)))"
      by blast
    with assms(3,4) show False by blast
  qed
  have bombs: "enemyBombs s2 = take j ?B @ filter (\<lambda>b. \<not> bomb_y b > screen_height)
                              (map move_bomb (drop (Suc j) ?B))"
    by (subst e) simp
  have f: "explosions s2 =
              explosions ?s1 @ [\<lparr>explosion_x = player_x ?s1 + playerWidth / 2,
                                explosion_y = player_y ?s1 + playerHeight / 2,
                                explosion_volume = 0.3\<rparr>]"
    "\<not> player_visible s2" "timeouts s2 = timeouts s @ [RESPAWN_DELAY]"
    "enemies s2 = enemies ?s1" "currentLevel s2 = currentLevel s" "lives s2 = lives s"
    "\<not> gameOver s2"
    using assms(1) by (simp_all add: e)
  have d: "lives (step Timeout s2) = lives s - 1"
    "gameOver (step Timeout s2) \<longleftrightarrow> lives s - 1 \<le> 0"
    using f(3,6) by (simp_all add: step_def respawn_callback_decision split: list.split)
  have "\<exists>j. i \<le> j \<and> j < length ?B \<and>
               checkCollision (player_box ?s1) (bomb_box (move_bomb (?B ! j))) \<and>
               enemyBombs s2 =
                 take j ?B @ filter (\<lambda>b. \<not> bomb_y b > screen_height)
                              (map move_bomb (drop (Suc j) ?B))"
    using ij j c bombs by blast
  with f d show ?thesis
    unfolding Let_def t by (simp add: RESPAWN_DELAY_def)
qed

theorem bomb_hit_ends_frame_witness:
  "\<not> gameOver bomb_hit_state \<and>
   1 < length (enemyBombs (frame_to_bombs input0 bomb_hit_state)) \<and>
   \<not> bomb_y (move_bomb (enemyBombs (frame_to_bombs input0 bomb_hit_state) ! 1)) > screen_height \<and>
   checkCollision (player_box (frame_to_bombs input0 bomb_hit_state))
     (bomb_box (move_bomb (enemyBombs (frame_to_bombs input0 bomb_hit_state) ! 1))) \<and>
   enemyBombs (tick input0 bomb_hit_state) = [\<lparr>bomb_x = 120, bomb_y = 100\<rparr>] \<and>
   enemies (tick input0 bomb_hit_state) = [new_enemy 0 0] \<and>
   explosions (tick input0 bomb_hit_state)
     = [\<lparr>explosion_x = 420, explosion_y = 567.5, explosion_volume = 0.3\<rparr>] \<and>
   \<not> player_visible (tick input0 bomb_hit_state) \<and>
   timeouts (tick input0 bomb_hit_state) = [500] \<and>
   lives (tick input0 bomb_hit_state) = 3 \<and>
   lives (step Timeout (tick input0 bomb_hit_state)) = 2"
proof -
  note fr = bomb_hit_state_frame
  have 1: "\<not> gameOver bomb_hit_state"
    and 2: "1 < length (enemyBombs (frame_to_bombs input0 bomb_hit_state))"
    and 3: "\<not> bomb_y (move_bomb (enemyBombs (frame_to_bombs input0 bomb_hit_state) ! 1)) > screen_height"
    and 4: "checkCollision (player_box (frame_to_bombs input0 bomb_hit_state))
       (bomb_box (move_bomb (enemyBombs (frame_to_bombs input0 bomb_hit_state) ! 1)))"
    unfolding fr
    by (simp_all add: bomb_hit_state_def init_game_fields move_bomb_def BOMB_SPEED_def
        screen_height_def checkCollision_def player_box_def bomb_box_def cannonHeight_def
        playerWidth_def playerHeight_def)
  have B: "enemyBombs (frame_to_bombs input0 bomb_hit_state)
           = [\<lparr>bomb_x = 120, bomb_y = 100\<rparr>, \<lparr>bomb_x = 420, bomb_y = 540\<rparr>]"
    and F: "explosions (frame_to_bombs input0 bomb_hit_state) = []"
      "enemies (frame_to_bombs input0 bomb_hit_state) = [new_enemy 0 0]"
      "player_x (frame_to_bombs input0 bomb_hit_state) = 400"
      "player_y (frame_to_bombs input0 bomb_hit_state) = 555"
      "timeouts bomb_hit_state = []" "lives bomb_hit_state = 3"
    unfolding fr by (simp_all add: bomb_hit_state_def init_game_fields)
  from bomb_hit_ends_frame [OF 1 2 3 4]
  obtain j where j: "1 \<le> j" "j < 2"
    and e: "enemyBombs (tick input0 bomb_hit_state) =
              take j [\<lparr>bomb_x = 120, bomb_y = 100\<rparr>, \<lparr>bomb_x = 420, bomb_y = 540\<rparr>]
              @ filter (\<lambda>b. \<not> bomb_y b > screen_height)
                  (map move_bomb (drop (Suc j) [\<lparr>bomb_x = 120, bomb_y = 100\<rparr>, \<lparr>bomb_x = 420, bomb_y = 540\<rparr>]))"
    and r: "explosions (tick input0 bomb_hit_state)
              = [\<lparr>explosion_x = 400 + playerWidth / 2, explosion_y = 555 + playerHeight / 2,
                  explosion_volume = 0.3\<rparr>]"
      "\<not> player_visible (tick input0 bomb_hit_state)"
      "timeouts (tick input0 bomb_hit_state) = [RESPAWN_DELAY]"
      "enemies (tick input0 bomb_hit_state) = [new_enemy 0 0]"
      "lives (tick input0 bomb_hit_state) = 3"
      "lives (step Timeout (tick input0 bomb_hit_state)) = 2"
    unfolding Let_def B F by auto
  from j have "j = 1" by simp
  with e have "enemyBombs (tick input0 bomb_hit_state) = [\<lparr>bomb_x = 120, bomb_y = 100\<rparr>]"
    by simp
  with 1 2 3 4 r show ?thesis
    by (simp add: RESPAWN_DELAY_def playerWidth_def playerHeight_def)
qed

subsection \<open>Lives lost in the enemy pass\<close>

lemma frame_after_bombs_lives:
  "lives (frame_after_bombs s) = lives (snd (enemies_forEach (enemies s) 0 True False s))"
  "gameOver (frame_after_bombs s) = gameOver (snd (enemies_forEach (enemies s) 0 True False s))"
  by (simp_all add: frame_after_bombs_def Let_def split: prod.split)

lemma tick_quiet:
  assumes "\<not> gameOver s" and "frame_to_bombs inp s = s1" and "enemyBombs s1 = []"
  shows "tick inp s = frame_after_bombs s1"
  using assms by (simp add: tick_def Let_def)

lemma lose_life_gameOver [simp]: "gameOver (lose_life s) \<longleftrightarrow> lives s - 1 \<le> 0"
  by (simp add: lose_life_def Let_def)

lemma init_game_quiet:
  assumes "activePowerUp s = activePowerUp init_game" and "powerUps s = powerUps init_game"
    and "powerUpSpawnTime s = powerUpSpawnTime init_game"
    and "left s = left init_game" and "right s = right init_game"
    and "space s = space init_game" and "bullets s = bullets init_game"
    and "bombDropTimer s = bombDropTimer init_game"
    and "currentLevel s = currentLevel init_game"
  shows "frame_to_bombs input0 s = s\<lparr>bombDropTimer := 1\<rparr>"
proof -
  have "frame_to_bombs input0 s = s\<lparr>bombDropTimer := Suc (bombDropTimer s)\<rparr>"
    by (rule frame_to_bombs_quiet)
       (simp_all add: assms init_game_fields input0_def
          POWER_UP_SPAWN_INTERVAL_def BOMB_DROP_INTERVAL_def)
  then show ?thesis by (simp add: assms init_game_fields)
qed

lemma low_enemies_forEach:
  assumes "player_y s = 555"
  shows "lives (snd (enemies_forEach low_enemies i al ntc s)) = lives s - 2"
    and "gameOver (snd (enemies_forEach low_enemies i al ntc s)) \<longleftrightarrow> lives s - 2 \<le> 0"
  using assms
  by (simp_all add: low_enemies_def Let_def enemy_height_def)

lemma two_low_state_tick:
  "lives (tick input0 two_low_state) = 1" "\<not> gameOver (tick input0 two_low_state)"
proof -
  have f: "frame_to_bombs input0 two_low_state = two_low_state\<lparr>bombDropTimer := 1\<rparr>"
    by (rule init_game_quiet) (simp_all add: two_low_state_def)
  have t: "tick input0 two_low_state = frame_after_bombs (two_low_state\<lparr>bombDropTimer := 1\<rparr>)"
    by (rule tick_quiet [OF _ f]) (simp_all add: two_low_state_def init_game_fields)
  have e: "enemies (two_low_state\<lparr>bombDropTimer := 1\<rparr>) = low_enemies"
    by (simp add: two_low_state_def)
  show "lives (tick input0 two_low_state) = 1" "\<not> gameOver (tick input0 two_low_state)"
    unfolding t frame_after_bombs_lives e
    by (simp_all add: low_enemies_forEach two_low_state_def init_game_fields)
qed

text \<open>
  Claim C2 says that the enemy pass handles only the first enemy that has passed the
  player's line or overlaps the player, takes exactly one life and leaves any further
  such enemy to the next frame. The \<open>return\<close> statements sit in the callback of
  \<open>forEach\<close>, so they end the callback for one enemy only and the pass goes on: with two
  enemies below the line and three lives, one frame takes two lives.
\<close>

theorem second_enemy_costs_a_life:
  "\<not> gameOver two_low_state \<and> lives two_low_state = 3 \<and>
   length (enemies two_low_state) = 2 \<and>
   lives (tick input0 two_low_state) = 1"
  using two_low_state_tick(1)
  by (simp add: two_low_state_def init_game_fields low_enemies_def)

text \<open>
  In every reachable state lives are at most \<open>STARTING_LIVES\<close> and the game is over
  exactly when \<open>lives \<le> 0\<close>; once over, the game stays over under every event but
  the restart key.
\<close>

lemma lives_inv_cong:
  "lives s' = lives s \<Longrightarrow> gameOver s' = gameOver s \<Longrightarrow> lives_inv s' = lives_inv s"
  by (simp add: lives_inv_def)

lemma lose_life_lives_inv: "lives_inv s \<Longrightarrow> lives_inv (lose_life s)"
  by (simp add: lives_inv_def)

lemma enemies_forEach_lives_inv:
  "lives_inv s \<Longrightarrow> lives_inv (snd (enemies_forEach es i al ntc s))"
proof (induction es arbitrary: i al ntc s)
  case Nil
  then show ?case by simp
next
  case (Cons e0 es)
  let ?e = "e0\<lparr>enemy_x := enemy_x e0 + enemySpeed s * direction e0\<rparr>"
  let ?s1 = "if al then s\<lparr>enemies := (enemies s)[i := ?e]\<rparr> else s"
  have "lives_inv ?s1 = lives_inv s" by (intro lives_inv_cong) simp_all
  with Cons.prems have 1: "lives_inv ?s1" by simp
  then have 2: "lives_inv (lose_life ?s1)" by (rule lose_life_lives_inv)
  from Cons.IH [OF 1] Cons.IH [OF 2] show ?case
    by (simp add: Let_def)
qed

lemma tick_lives_inv:
  assumes "lives_inv s" shows "lives_inv (tick inp s)"
proof (cases rule: tick_cases [of s inp])
  case over
  with assms show ?thesis by simp
next
  case (hit s2)
  then have "lives_inv s2 = lives_inv s"
    by (intro lives_inv_cong) (auto dest!: bombs_loop_snd)
  with assms hit(3) show ?thesis by simp
next
  case (nohit s2)
  then have "lives_inv s2 = lives_inv s"
    by (intro lives_inv_cong) (auto dest!: bombs_loop_snd)
  with assms have "lives_inv (snd (enemies_forEach (enemies s2) 0 True False s2))"
    by (simp add: enemies_forEach_lives_inv)
  then have "lives_inv (frame_after_bombs s2)"
    by (simp add: lives_inv_def frame_after_bombs_lives)
  with nohit(3) show ?thesis by simp
qed

lemma step_lives_inv:
  assumes "lives_inv s" shows "lives_inv (step ev s)"
proof (cases ev)
  case (Tick inp)
  with assms show ?thesis by (simp add: step_def tick_lives_inv)
next
  case (KeyDown k)
  with assms show ?thesis
    by (simp add: step_def keydown_def lives_inv_def STARTING_LIVES_def split: key.split)
next
  case (KeyUp k)
  have "lives_inv (keyup k s) = lives_inv s" by (intro lives_inv_cong) simp_all
  with assms KeyUp show ?thesis by (simp add: step_def)
next
  case Timeout
  with assms show ?thesis
    by (simp add: step_def lives_inv_def respawn_callback_decision split: list.split)
qed

lemma reachable_lives_inv: "reachable s \<Longrightarrow> lives_inv s"
  by (induction rule: reachable.induct)
     (simp_all add: step_lives_inv, simp add: lives_inv_def init_game_fields STARTING_LIVES_def)

lemma game_over_is_terminal:
  assumes "reachable s" and "gameOver s" and "ev \<noteq> KeyDown KeyR"
  shows "gameOver (step ev s)"
proof (cases ev)
  case (Tick inp)
  with assms(2) show ?thesis by (simp add: step_def tick_def)
next
  case (KeyDown k)
  with assms(2,3) show ?thesis by (simp add: step_def keydown_def)
next
  case (KeyUp k)
  with assms(2) show ?thesis by (simp add: step_def)
next
  case Timeout
  from assms(1) have "lives_inv s" by (rule reachable_lives_inv)
  with assms(2) have "lives s \<le> 0" by (simp add: lives_inv_def)
  with assms(2) Timeout show ?thesis
    by (simp add: step_def respawn_callback_decision split: list.split)
qed

text \<open>
  Claim C1 says that lives stay within \<open>[0, STARTING_LIVES]\<close> in every frame and that
  game over, once set, stays until a new game. The upper bound and the second part hold
  (\<open>reachable_lives_inv\<close>, \<open>game_over_is_terminal\<close>), the lower bound does not:
  with one life left and two enemies below the player's line, the first enemy takes the
  last life and sets the game-over flag, and the pass goes on to the second enemy, which
  takes another life. The frame ends with \<open>lives = -1\<close>.
\<close>

theorem lives_go_negative:
  "\<not> gameOver last_life_state \<and> lives last_life_state = 1 \<and>
   lives (tick input0 last_life_state) = -1 \<and> gameOver (tick input0 last_life_state)"
proof -
  have f: "frame_to_bombs input0 last_life_state = last_life_state\<lparr>bombDropTimer := 1\<rparr>"
    by (rule init_game_quiet) (simp_all add: last_life_state_def)
  have t: "tick input0 last_life_state = frame_after_bombs (last_life_state\<lparr>bombDropTimer := 1\<rparr>)"
    by (rule tick_quiet [OF _ f]) (simp_all add: last_life_state_def init_game_fields)
  have e: "enemies (last_life_state\<lparr>bombDropTimer := 1\<rparr>) = low_enemies"
    by (simp add: last_life_state_def)
  show ?thesis
    unfolding t frame_after_bombs_lives e
    by (simp add: low_enemies_forEach last_life_state_def init_game_fields)
qed

subsection \<open>The size of the enemy collection\<close>

lemma length_splice1: "length (splice1 j xs) \<le> length xs"
  by (simp add: splice1_def)

lemma laser_loop_enemies: "length (enemies (laser_loop lx n s)) \<le> length (enemies s)"
proof (induction n arbitrary: s)
  case 0
  then show ?case by simp
next
  case (Suc n)
  let ?e = "enemies s ! n"
  let ?s1 = "(createExplosion (enemy_x ?e + enemy_width ?e / 2)
                (enemy_y ?e + enemy_height ?e / 2) 0.15 s)\<lparr>enemies := splice1 n (enemies s)\<rparr>"
  have "length (enemies (laser_loop lx n ?s1)) \<le> length (enemies ?s1)" by (rule Suc.IH)
  also have "\<dots> \<le> length (enemies s)" by (simp add: length_splice1)
  finally have a: "length (enemies (laser_loop lx n ?s1)) \<le> length (enemies s)" .
  from a Suc.IH [of s] show ?case by (simp add: Let_def)
qed

lemma shoot_enemies: "length (enemies (shoot now s)) \<le> length (enemies s)"
  using laser_loop_enemies [of "player_x s + playerWidth / 2" "length (enemies s)" "s\<lparr>shootTimer := now\<rparr>"]
  by (simp add: shoot_def Let_def fire_laser_def fire_triple_def fire_normal_def)

lemma bullet_step_enemies: "length (enemies (bullet_step i s)) \<le> length (enemies s)"
  by (simp add: bullet_step_def Let_def length_splice1 split: option.split)

lemma bullets_loop_enemies: "length (enemies (bullets_loop n s)) \<le> length (enemies s)"
proof (induction n arbitrary: s)
  case 0
  then show ?case by simp
next
  case (Suc n)
  have "length (enemies (bullets_loop n (bullet_step n s))) \<le> length (enemies (bullet_step n s))"
    by (rule Suc.IH)
  also have "\<dots> \<le> length (enemies s)" by (rule bullet_step_enemies)
  finally show ?case by simp
qed

lemma frame_to_bombs_enemies:
  "length (enemies (frame_to_bombs inp s)) \<le> length (enemies s)"
proof -
  let ?s2 = "move_player (updatePowerUps inp s)"
  let ?s3 = "if space ?s2 then shoot (now_shoot inp) ?s2 else ?s2"
  have "length (enemies ?s3) \<le> length (enemies s)"
    using shoot_enemies [of "now_shoot inp" ?s2] by simp
  moreover have "length (enemies (bullets_loop (length (bullets ?s3)) ?s3)) \<le> length (enemies ?s3)"
    by (rule bullets_loop_enemies)
  ultimately show ?thesis
    by (simp add: frame_to_bombs_def Let_def)
qed

lemma createEnemies_length: "length (enemies (createEnemies s)) = 24"
  by (simp add: createEnemies_def ENEMY_ROWS_def ENEMIES_PER_ROW_def length_concat o_def
      sum_list_triv)

lemma resetGame_length: "length (enemies (resetGame n s)) = 24"
  by (simp add: resetGame_def Let_def createEnemies_length)

lemma lose_life_reset:
  "\<not> gameOver (lose_life s) \<Longrightarrow> length (enemies (lose_life s)) = 24"
  by (simp add: lose_life_def Let_def resetGame_length split: if_splits)

lemma enemies_forEach_lives_le:
  "lives (snd (enemies_forEach es i al ntc s)) \<le> lives s"
proof (induction es arbitrary: i al ntc s)
  case Nil
  then show ?case by simp
next
  case (Cons e0 es)
  let ?e = "e0\<lparr>enemy_x := enemy_x e0 + enemySpeed s * direction e0\<rparr>"
  let ?s1 = "if al then s\<lparr>enemies := (enemies s)[i := ?e]\<rparr> else s"
  have l: "lives ?s1 = lives s" by simp
  have "lives (snd (enemies_forEach es i' al' ntc' (lose_life ?s1))) \<le> lives s" for i' al' ntc'
    using Cons.IH [of i' al' ntc' "lose_life ?s1"] l by simp
  moreover have "lives (snd (enemies_forEach es i' al' ntc' ?s1)) \<le> lives s" for i' al' ntc'
    using Cons.IH [of i' al' ntc' ?s1] l by simp
  ultimately show ?case
    by (simp add: Let_def)
qed

lemma enemies_forEach_no_loss:
  "lives (snd (enemies_forEach es i al ntc s)) = lives s \<Longrightarrow>
   length (enemies (snd (enemies_forEach es i al ntc s))) = length (enemies s) \<and>
   gameOver (snd (enemies_forEach es i al ntc s)) = gameOver s"
proof (induction es arbitrary: i al ntc s)
  case Nil
  then show ?case by simp
next
  case (Cons e0 es)
  let ?e = "e0\<lparr>enemy_x := enemy_x e0 + enemySpeed s * direction e0\<rparr>"
  let ?s1 = "if al then s\<lparr>enemies := (enemies s)[i := ?e]\<rparr> else s"
  let ?ntc = "ntc \<or> enemy_x ?e > screen_width - enemy_width ?e \<or> enemy_x ?e < 0"
  have l: "lives ?s1 = lives s" "length (enemies ?s1) = length (enemies s)"
    "gameOver ?s1 = gameOver s"
    by simp_all
  show ?case
  proof (cases "enemy_y ?e + enemy_height ?e > player_y ?s1 \<or>
                checkCollision (player_box ?s1) (enemy_box ?e)")
    case True
    then have r: "enemies_forEach (e0 # es) i al ntc s =
                  enemies_forEach es (Suc i) (al \<and> lives ?s1 - 1 \<le> 0) ?ntc (lose_life ?s1)"
      by (auto simp: Let_def)
    have "lives (snd (enemies_forEach es (Suc i) (al \<and> lives ?s1 - 1 \<le> 0) ?ntc (lose_life ?s1)))
          \<le> lives (lose_life ?s1)"
      by (rule enemies_forEach_lives_le)
    with Cons.prems r l(1) have False by simp
    then show ?thesis ..
  next
    case False
    then have r: "enemies_forEach (e0 # es) i al ntc s = enemies_forEach es (Suc i) al ?ntc ?s1"
      by (auto simp: Let_def)
    with Cons.prems l(1) have "lives (snd (enemies_forEach es (Suc i) al ?ntc ?s1)) = lives ?s1"
      by simp
    from Cons.IH [OF this] r l show ?thesis by simp
  qed
qed

lemma enemies_forEach_respawn:
  "lives (snd (enemies_forEach es i al ntc s)) < lives s \<Longrightarrow>
   \<not> gameOver (snd (enemies_forEach es i al ntc s)) \<Longrightarrow>
   length (enemies (snd (enemies_forEach es i al ntc s))) = 24"
proof (induction es arbitrary: i al ntc s)
  case Nil
  then show ?case by simp
next
  case (Cons e0 es)
  let ?e = "e0\<lparr>enemy_x := enemy_x e0 + enemySpeed s * direction e0\<rparr>"
  let ?s1 = "if al then s\<lparr>enemies := (enemies s)[i := ?e]\<rparr> else s"
  let ?ntc = "ntc \<or> enemy_x ?e > screen_width - enemy_width ?e \<or> enemy_x ?e < 0"
  have l: "lives ?s1 = lives s" by simp
  show ?case
  proof (cases "enemy_y ?e + enemy_height ?e > player_y ?s1 \<or>
                checkCollision (player_box ?s1) (enemy_box ?e)")
    case True
    let ?r = "enemies_forEach es (Suc i) (al \<and> lives ?s1 - 1 \<le> 0) ?ntc (lose_life ?s1)"
    from True have r: "enemies_forEach (e0 # es) i al ntc s = ?r"
      by (auto simp: Let_def)
    have le: "lives (snd ?r) \<le> lives (lose_life ?s1)"
      by (rule enemies_forEach_lives_le)
    show ?thesis
    proof (cases "lives (snd ?r) = lives (lose_life ?s1)")
      case True
      from enemies_forEach_no_loss [OF this] Cons.prems(2) r
      have "length (enemies (snd ?r)) = length (enemies (lose_life ?s1))"
        and "\<not> gameOver (lose_life ?s1)"
        by simp_all
      with r show ?thesis by (simp add: lose_life_reset)
    next
      case False
      with le have "lives (snd ?r) < lives (lose_life ?s1)" by simp
      from Cons.IH [OF this] Cons.prems(2) r show ?thesis by simp
    qed
  next
    case False
    then have r: "enemies_forEach (e0 # es) i al ntc s = enemies_forEach es (Suc i) al ?ntc ?s1"
      by (auto simp: Let_def)
    with Cons.prems l have "lives (snd (enemies_forEach es (Suc i) al ?ntc ?s1)) < lives ?s1"
      "\<not> gameOver (snd (enemies_forEach es (Suc i) al ?ntc ?s1))"
      by simp_all
    from Cons.IH [OF this] r show ?thesis by simp
  qed
qed


lemma change_direction_empty [simp]:
  "enemies (change_direction s) = [] \<longleftrightarrow> enemies s = []"
  by (simp add: change_direction_def)

lemma frame_after_bombs_cases:
  obtains (advance) ntc s1 where "enemies_forEach (enemies s) 0 True False s = (ntc, s1)"
      and "length (enemies s1) = 0"
      and "frame_after_bombs s = nextLevel ((if ntc then change_direction s1 else s1)\<lparr>enemyBombs := []\<rparr>)"
  | (stay) ntc s1 where "enemies_forEach (enemies s) 0 True False s = (ntc, s1)"
      and "length (enemies s1) \<noteq> 0"
      and "frame_after_bombs s = (if ntc then change_direction s1 else s1)"
proof -
  obtain ntc s1 where e: "enemies_forEach (enemies s) 0 True False s = (ntc, s1)"
    by (cases "enemies_forEach (enemies s) 0 True False s")
  show ?thesis
  proof (cases "length (enemies s1) = 0")
    case True
    with e advance [OF e True] show ?thesis
      by (cases ntc) (simp_all add: frame_after_bombs_def Let_def)
  next
    case False
    with e stay [OF e False] show ?thesis
      by (cases ntc) (simp_all add: frame_after_bombs_def Let_def)
  qed
qed

lemma frame_after_bombs_no_loss:
  assumes "lives (frame_after_bombs s) = lives s"
    and "currentLevel (frame_after_bombs s) = currentLevel s"
  shows "length (enemies (frame_after_bombs s)) = length (enemies s)"
proof (cases rule: frame_after_bombs_cases [of s])
  case (advance ntc s1)
  then have "s1 = snd (enemies_forEach (enemies s) 0 True False s)" by simp
  then have "currentLevel s1 = currentLevel s" by simp
  with advance(3) assms(2) show ?thesis by (cases ntc) simp_all
next
  case (stay ntc s1)
  then have s1: "s1 = snd (enemies_forEach (enemies s) 0 True False s)" by simp
  from stay(3) assms(1) have "lives s1 = lives s" by (simp split: if_splits)
  then have "length (enemies s1) = length (enemies s)"
    unfolding s1 by (rule enemies_forEach_no_loss [THEN conjunct1])
  with stay(3) show ?thesis by simp
qed

lemma frame_after_bombs_respawn:
  assumes "lives (frame_after_bombs s) < lives s" and "\<not> gameOver (frame_after_bombs s)"
  shows "length (enemies (frame_after_bombs s)) = 24 \<and>
         currentLevel (frame_after_bombs s) = currentLevel s"
proof -
  obtain ntc s1 where e: "enemies_forEach (enemies s) 0 True False s = (ntc, s1)"
    by (cases "enemies_forEach (enemies s) 0 True False s")
  then have s1: "s1 = snd (enemies_forEach (enemies s) 0 True False s)" by simp
  have "lives s1 < lives s" "\<not> gameOver s1"
    using assms by (simp_all add: frame_after_bombs_lives s1)
  then have n: "length (enemies s1) = 24"
    unfolding s1 by (rule enemies_forEach_respawn)
  have c: "currentLevel s1 = currentLevel s" by (simp add: s1)
  from n have "enemies s1 \<noteq> []" by auto
  with n c show ?thesis
    by (cases ntc) (simp_all add: frame_after_bombs_def e Let_def)
qed

text \<open>
  Claim C5 (as amended). A frame of a running game that takes no life and does not
  advance the level never enlarges the enemy collection. A frame that takes a life and
  leaves the game running, and a respawn callback that leaves a life, repopulate the
  collection with all 24 enemies at the same level. A frame in which the collection is
  empty after the bullet pass and no bomb hits the player advances the level and neither
  takes a life nor sets the game-over flag.
\<close>

theorem enemy_collection_size:
  assumes "\<not> gameOver s"
  shows "(lives (tick inp s) = lives s \<and> currentLevel (tick inp s) = currentLevel s \<longrightarrow>
            length (enemies (tick inp s)) \<le> length (enemies s)) \<and>
         (lives (tick inp s) < lives s \<and> \<not> gameOver (tick inp s) \<longrightarrow>
            length (enemies (tick inp s)) = 24 \<and>
            currentLevel (tick inp s) = currentLevel s) \<and>
         (0 < lives s - 1 \<longrightarrow>
            length (enemies (respawn_callback s)) = 24 \<and>
            currentLevel (respawn_callback s) = currentLevel s) \<and>
         (enemies (frame_to_bombs inp s) = [] \<and>
          \<not> fst (bombs_loop (length (enemyBombs (frame_to_bombs inp s))) (frame_to_bombs inp s)) \<longrightarrow>
            currentLevel (tick inp s) = currentLevel s + 1 \<and>
            lives (tick inp s) = lives s \<and> \<not> gameOver (tick inp s))"
proof (intro conjI impI)
  assume a: "lives (tick inp s) = lives s \<and> currentLevel (tick inp s) = currentLevel s"
  show "length (enemies (tick inp s)) \<le> length (enemies s)"
  proof (cases rule: tick_cases [of s inp])
    case over
    with assms show ?thesis by simp
  next
    case (hit s2)
    then have "enemies s2 = enemies (frame_to_bombs inp s)"
      by (auto dest!: bombs_loop_snd)
    with hit(3) show ?thesis by (simp add: frame_to_bombs_enemies)
  next
    case (nohit s2)
    then have s2: "enemies s2 = enemies (frame_to_bombs inp s)" "lives s2 = lives s"
      "currentLevel s2 = currentLevel s"
      by (auto dest!: bombs_loop_snd)
    with a nohit(3) have "length (enemies (frame_after_bombs s2)) = length (enemies s2)"
      by (intro frame_after_bombs_no_loss) simp_all
    with nohit(3) s2(1) show ?thesis by (simp add: frame_to_bombs_enemies)
  qed
next
  assume a: "lives (tick inp s) < lives s \<and> \<not> gameOver (tick inp s)"
  have "length (enemies (tick inp s)) = 24 \<and> currentLevel (tick inp s) = currentLevel s"
  proof (cases rule: tick_cases [of s inp])
    case over
    with assms show ?thesis by simp
  next
    case (hit s2)
    then have "lives s2 = lives s" by (auto dest!: bombs_loop_snd)
    with hit(3) a show ?thesis by simp
  next
    case (nohit s2)
    then have s2: "lives s2 = lives s" "currentLevel s2 = currentLevel s"
      by (auto dest!: bombs_loop_snd)
    with a nohit(3) have "length (enemies (frame_after_bombs s2)) = 24 \<and>
         currentLevel (frame_after_bombs s2) = currentLevel s2"
      by (intro frame_after_bombs_respawn) simp_all
    with nohit(3) s2 show ?thesis by simp
  qed
  then show "length (enemies (tick inp s)) = 24"
    and "currentLevel (tick inp s) = currentLevel s"
    by simp_all
next
  assume "0 < lives s - 1"
  then show "length (enemies (respawn_callback s)) = 24"
    by (simp add: respawn_callback_def Let_def resetGame_length)
next
  show "currentLevel (respawn_callback s) = currentLevel s" by simp
next
  assume a: "enemies (frame_to_bombs inp s) = [] \<and>
          \<not> fst (bombs_loop (length (enemyBombs (frame_to_bombs inp s))) (frame_to_bombs inp s))"
  let ?s1 = "frame_to_bombs inp s"
  obtain s2 where b: "bombs_loop (length (enemyBombs ?s1)) ?s1 = (False, s2)"
    using a by (cases "bombs_loop (length (enemyBombs ?s1)) ?s1") simp
  then have s2: "s2 = snd (bombs_loop (length (enemyBombs ?s1)) ?s1)" by simp
  have e: "enemies s2 = []" "currentLevel s2 = currentLevel s" "lives s2 = lives s"
    "\<not> gameOver s2"
    using assms a by (simp_all add: s2)
  have t: "tick inp s = nextLevel (s2\<lparr>enemyBombs := []\<rparr>)"
    using tick_miss [OF assms b] e(1) by (simp add: frame_after_bombs_empty)
  show "currentLevel (tick inp s) = currentLevel s + 1"
    and "lives (tick inp s) = lives s" and "\<not> gameOver (tick inp s)"
    unfolding t using e by simp_all
qed

theorem enemy_collection_size_witness:
  "\<not> gameOver bomb_hit_state \<and> \<not> gameOver two_low_state \<and> \<not> gameOver level_clear_state \<and>
   lives (tick input0 bomb_hit_state) = lives bomb_hit_state \<and>
   currentLevel (tick input0 bomb_hit_state) = currentLevel bomb_hit_state \<and>
   length (enemies (tick input0 bomb_hit_state)) \<le> length (enemies bomb_hit_state) \<and>
   lives (tick input0 two_low_state) < lives two_low_state \<and>
   \<not> gameOver (tick input0 two_low_state) \<and>
   length (enemies two_low_state) = 2 \<and>
   length (enemies (tick input0 two_low_state)) = 24 \<and>
   currentLevel (tick input0 two_low_state) = currentLevel two_low_state \<and>
   0 < lives bomb_hit_state - 1 \<and>
   length (enemies (respawn_callback bomb_hit_state)) = 24 \<and>
   enemies (frame_to_bombs input0 level_clear_state) = [] \<and>
   \<not> fst (bombs_loop (length (enemyBombs (frame_to_bombs input0 level_clear_state)))
            (frame_to_bombs input0 level_clear_state)) \<and>
   currentLevel (tick input0 level_clear_state) = currentLevel level_clear_state + 1 \<and>
   \<not> gameOver (tick input0 level_clear_state)"
proof -
  have g: "\<not> gameOver bomb_hit_state" "\<not> gameOver two_low_state" "\<not> gameOver level_clear_state"
    "lives bomb_hit_state = 3" "lives two_low_state = 3" "length (enemies two_low_state) = 2"
    by (simp_all add: bomb_hit_state_def two_low_state_def level_clear_state_fields
        init_game_fields low_enemies_def)
  have a: "lives (tick input0 bomb_hit_state) = lives bomb_hit_state"
    "currentLevel (tick input0 bomb_hit_state) = currentLevel bomb_hit_state"
    by (simp_all add: bomb_hit_state_tick)
  have b: "lives (tick input0 two_low_state) < lives two_low_state"
    "\<not> gameOver (tick input0 two_low_state)"
    using two_low_state_tick g(5) by simp_all
  have c: "0 < lives bomb_hit_state - 1" using g(4) by simp
  note d = level_clear_frame
  from enemy_collection_size [OF g(1), of input0] a
  have 1: "length (enemies (tick input0 bomb_hit_state)) \<le> length (enemies bomb_hit_state)"
    by blast
  from enemy_collection_size [OF g(1), of input0] c
  have 3: "length (enemies (respawn_callback bomb_hit_state)) = 24"
    by blast
  from enemy_collection_size [OF g(2), of input0] b
  have 2: "length (enemies (tick input0 two_low_state)) = 24"
    "currentLevel (tick input0 two_low_state) = currentLevel two_low_state"
    by blast+
  from enemy_collection_size [OF g(3), of input0] d
  have 4: "currentLevel (tick input0 level_clear_state) = currentLevel level_clear_state + 1"
    "\<not> gameOver (tick input0 level_clear_state)"
    by blast+
  from g a b c d 1 2 3 4 show ?thesis by simp
qed

text \<open>
  The claim as it stands fails on a respawn. With one enemy left at level 1, a bomb hits
  the player in a frame, and when the respawn callback runs, \<open>resetGame(false)\<close> creates
  the enemies anew: the collection grows from 1 to 24 while the level stays 1 and the
  game goes on.
\<close>

theorem enemy_collection_size_counterexample:
  "length (enemies bomb_hit_state) = 1 \<and> currentLevel bomb_hit_state = 1 \<and>
   length (enemies (run [Tick input0] bomb_hit_state)) = 1 \<and>
   length (enemies (run [Tick input0, Timeout] bomb_hit_state)) = 24 \<and>
   currentLevel (run [Tick input0, Timeout] bomb_hit_state) = 1 \<and>
   \<not> gameOver (run [Tick input0, Timeout] bomb_hit_state)"
proof -
  have g: "lives bomb_hit_state = 3" "length (enemies bomb_hit_state) = 1"
    "currentLevel bomb_hit_state = 1"
    by (simp_all add: bomb_hit_state_def init_game_fields)
  have t: "timeouts (tick input0 bomb_hit_state) = [RESPAWN_DELAY]"
    "lives (tick input0 bomb_hit_state) = 3" "currentLevel (tick input0 bomb_hit_state) = 1"
    "length (enemies (tick input0 bomb_hit_state)) = 1"
    by (simp_all add: bomb_hit_state_tick g)
  have r: "length (enemies (respawn_callback s)) = 24" "\<not> gameOver (respawn_callback s)"
    if "lives s = 3" for s
    using that by (simp_all add: respawn_callback_def Let_def resetGame_length)
  show ?thesis
    using g t by (simp add: step_def r)
qed

subsection \<open>Level advance\<close>







subsection \<open>Bullets against enemies\<close>











subsection \<open>One active power-up\<close>

lemma pu_inv_cong:
  assumes "powerUps s' = powerUps s" and "pu_next s' = pu_next s"
    and "pu_store s' = pu_store s" and "activePowerUp s' = activePowerUp s"
  shows "pu_inv s' = pu_inv s"
  by (simp add: pu_inv_def assms)

lemma activatePowerUp_fields:
  "activePowerUp (activatePowerUp r s) = Some r"
  "powerUps (activatePowerUp r s) = remove1 r (powerUps s)"
  "pu_stage (activatePowerUp r s) = pu_stage s - {r}"
  "pu_store (activatePowerUp r s) =
     (pu_store (deactivate_current s))
       (r := (pu_store (deactivate_current s) r)\<lparr>powerUpActive := True,
                powerUpTimer := POWER_UP_DURATION\<rparr>)"
  by (simp_all add: activatePowerUp_def deactivate_current_def Let_def split: option.split)

lemma deactivate_current_fields:
  "activePowerUp (deactivate_current s) = activePowerUp s"
  "powerUps (deactivate_current s) = powerUps s"
  "pu_next (deactivate_current s) = pu_next s"
  "pu_store (deactivate_current s) r =
     (if activePowerUp s = Some r then (pu_store s r)\<lparr>powerUpActive := False\<rparr>
      else pu_store s r)"
  by (simp_all add: deactivate_current_def split: option.split)

lemma activatePowerUp_inv:
  assumes "pu_inv s" and "r \<in> set (powerUps s)"
  shows "pu_inv (activatePowerUp r s)"
  using assms
  by (auto simp: pu_inv_def activatePowerUp_fields deactivate_current_fields)

lemma active_powerups_inv:
  assumes "pu_inv s"
  shows "active_powerups s = (case activePowerUp s of None \<Rightarrow> [] | Some a \<Rightarrow> [a])"
proof -
  from assms have d: "distinct (powerUps s)"
    and i: "\<forall>r \<in> set (powerUps s). \<not> powerUpActive (pu_store s r)"
    by (simp_all add: pu_inv_def)
  from i have f: "filter (\<lambda>r. powerUpActive (pu_store s r)) (powerUps s) = []"
    by (simp add: filter_empty_conv)
  show ?thesis
  proof (cases "activePowerUp s")
    case None
    with d f show ?thesis
      by (simp add: active_powerups_def referred_powerups_def distinct_remdups_id)
  next
    case (Some a)
    with assms have "a \<notin> set (powerUps s)" "powerUpActive (pu_store s a)"
      by (simp_all add: pu_inv_def)
    with d have rd: "remdups (powerUps s @ [a]) = powerUps s @ [a]"
      by (simp add: distinct_remdups_id)
    have "active_powerups s = filter (\<lambda>r. powerUpActive (pu_store s r)) (powerUps s @ [a])"
      unfolding active_powerups_def referred_powerups_def Some option.case rd ..
    with Some f \<open>powerUpActive (pu_store s a)\<close> show ?thesis
      by simp
  qed
qed

lemma deactivate_current_none:
  assumes "pu_inv s"
  shows "active_powerups (deactivate_current s) = []"
proof -
  from assms have i: "\<forall>r \<in> set (powerUps s). \<not> powerUpActive (pu_store s r)"
    by (simp add: pu_inv_def)
  show ?thesis
    using i
    by (auto simp: active_powerups_def referred_powerups_def deactivate_current_fields
        filter_empty_conv split: option.splits)
qed

lemma spawn_powerup_inv: "pu_inv s \<Longrightarrow> pu_inv (spawn_powerup inp s)"
  by (auto simp: pu_inv_def spawn_powerup_def createPowerUp_def Let_def less_Suc_eq)

lemma expire_powerup_inv: "pu_inv s \<Longrightarrow> pu_inv (expire_powerup s)"
  by (auto simp: pu_inv_def expire_powerup_def Let_def split: option.splits)


lemma set_splice1: "set (splice1 i xs) \<subseteq> set xs"
  by (auto simp: splice1_def dest: in_set_takeD in_set_dropD)

lemma distinct_splice1: "distinct xs \<Longrightarrow> distinct (splice1 i xs)"
  by (simp add: splice1_def set_take_disj_set_drop_if_distinct)


lemma pu_inv_move:
  "pu_inv s \<Longrightarrow>
   pu_inv (s\<lparr>pu_store := (pu_store s)(r := (pu_store s r)\<lparr>pu_y := y\<rparr>)\<rparr>)"
  by (simp add: pu_inv_def)

lemma pu_inv_off_screen:
  assumes "pu_inv s"
  shows "pu_inv (s\<lparr>pu_stage := st, powerUps := splice1 i (powerUps s)\<rparr>)"
  using assms set_splice1 [of i "powerUps s"]
  by (auto simp: pu_inv_def distinct_splice1)

lemma length_remove1_nth:
  "i < length xs \<Longrightarrow> i \<le> length (remove1 (xs ! i) xs)"
  by (simp add: length_remove1)

lemma powerUps_loop_inv:
  "pu_inv s \<Longrightarrow> n \<le> length (powerUps s) \<Longrightarrow> pu_inv (powerUps_loop n s)"
proof (induction n arbitrary: s)
  case 0
  then show ?case by simp
next
  case (Suc n)
  let ?r = "powerUps s ! n"
  let ?s1 = "s\<lparr>pu_store := (pu_store s)(?r := (pu_store s ?r)\<lparr>pu_y := pu_y (pu_store s ?r) + 1\<rparr>)\<rparr>"
  from Suc.prems have n: "n < length (powerUps s)" by simp
  then have r: "?r \<in> set (powerUps s)" by simp
  have i1: "pu_inv ?s1" using Suc.prems(1) by (rule pu_inv_move)
  have a: "pu_inv (powerUps_loop n (?s1\<lparr>pu_stage := pu_stage ?s1 - {?r},
                                           powerUps := splice1 n (powerUps ?s1)\<rparr>))"
  proof (rule Suc.IH)
    show "pu_inv (?s1\<lparr>pu_stage := pu_stage ?s1 - {?r}, powerUps := splice1 n (powerUps ?s1)\<rparr>)"
      using i1 by (rule pu_inv_off_screen)
    show "n \<le> length (powerUps (?s1\<lparr>pu_stage := pu_stage ?s1 - {?r},
                                       powerUps := splice1 n (powerUps ?s1)\<rparr>))"
      using n by (simp add: splice1_def)
  qed
  have b: "pu_inv (powerUps_loop n (activatePowerUp ?r ?s1))"
  proof (rule Suc.IH)
    show "pu_inv (activatePowerUp ?r ?s1)"
      using i1 r by (intro activatePowerUp_inv) simp_all
    show "n \<le> length (powerUps (activatePowerUp ?r ?s1))"
      using n by (simp add: activatePowerUp_fields length_remove1_nth)
  qed
  have c: "pu_inv (powerUps_loop n ?s1)"
    using i1 n by (intro Suc.IH) simp_all
  from a b c show ?case
    by (simp add: Let_def)
qed

lemma updatePowerUps_inv: "pu_inv s \<Longrightarrow> pu_inv (updatePowerUps inp s)"
  by (simp add: updatePowerUps_def Let_def powerUps_loop_inv spawn_powerup_inv
      expire_powerup_inv)

lemma tick_inv: 
  assumes "pu_inv s" shows "pu_inv (tick inp s)"
proof -
  have u: "pu_inv (updatePowerUps inp s)" using assms by (rule updatePowerUps_inv)
  show ?thesis
  proof (cases rule: tick_cases [of s inp])
    case over
    with assms show ?thesis by simp
  next
    case (hit s2)
    then have "pu_inv s2 = pu_inv (updatePowerUps inp s)"
      by (intro pu_inv_cong) (auto dest!: bombs_loop_snd)
    with u hit(3) show ?thesis by simp
  next
    case (nohit s2)
    then have "pu_inv s2 = pu_inv (updatePowerUps inp s)"
      by (intro pu_inv_cong) (auto dest!: bombs_loop_snd)
    moreover have "pu_inv (frame_after_bombs s2) = pu_inv s2"
      by (intro pu_inv_cong) simp_all
    ultimately show ?thesis using u nohit(3) by simp
  qed
qed

lemma step_inv: 
  assumes "pu_inv s" shows "pu_inv (step ev s)"
proof (cases ev)
  case (Tick inp)
  with assms show ?thesis by (simp add: step_def tick_inv)
next
  case (KeyDown k)
  have "pu_inv (keydown k s) = pu_inv s" by (intro pu_inv_cong) simp_all
  with assms KeyDown show ?thesis by (simp add: step_def)
next
  case (KeyUp k)
  have "pu_inv (keyup k s) = pu_inv s" by (intro pu_inv_cong) simp_all
  with assms KeyUp show ?thesis by (simp add: step_def)
next
  case Timeout
  have "pu_inv (respawn_callback (s\<lparr>timeouts := ts\<rparr>)) = pu_inv s" for ts
    by (intro pu_inv_cong) simp_all
  with assms Timeout show ?thesis by (simp add: step_def split: list.split)
qed

lemma init_game_inv: "pu_inv init_game"
  by (simp add: pu_inv_def init_game_fields)

lemma reachable_inv: "reachable s \<Longrightarrow> pu_inv s"
  by (induction rule: reachable.induct) (simp_all add: init_game_inv step_inv)

lemma player_box_powerups [simp]:
  "player_box (expire_powerup s) = player_box s"
  "player_box (spawn_powerup inp s) = player_box s"
  "player_box (s\<lparr>pu_store := st\<rparr>) = player_box s"
  by (simp_all add: player_box_def)

lemma pickup_in_frame:
  assumes i: "pu_inv s" and l: "powerUps s = [r]"
    and off: "\<not> pu_y (pu_store s r) + 1 > screen_height"
    and c: "checkCollision
              (powerup_box ((pu_store s r)\<lparr>pu_y := pu_y (pu_store s r) + 1\<rparr>)) (player_box s)"
  shows "activePowerUp (updatePowerUps inp s) = Some r"
    and "active_powerups (updatePowerUps inp s) = [r]"
    and "powerUpTimer (pu_store (updatePowerUps inp s) r) = POWER_UP_DURATION"
    and "powerUps (updatePowerUps inp s) = []"
    and "r \<notin> pu_stage (updatePowerUps inp s)"
proof -
  let ?s2 = "expire_powerup s"
  let ?s3 = "?s2\<lparr>pu_store := (pu_store ?s2)(r := (pu_store ?s2 r)\<lparr>pu_y := pu_y (pu_store ?s2 r) + 1\<rparr>)\<rparr>"
  have sp: "spawn_powerup inp s = s" using l by (simp add: spawn_powerup_def)
  have nr: "a \<noteq> r" if "activePowerUp s = Some a" for a
    using i l that by (auto simp: pu_inv_def)
  have st: "pu_store ?s2 r = pu_store s r"
    using nr by (auto simp: expire_powerup_def Let_def split: option.split)
  have l2: "powerUps ?s2 = [r]" using l by simp
  have i3: "pu_inv ?s3" using i by (intro pu_inv_move expire_powerup_inv)
  have u: "updatePowerUps inp s = activatePowerUp r ?s3"
    using off c by (simp add: updatePowerUps_def sp Let_def l st)
  have j: "pu_inv (activatePowerUp r ?s3)"
    using i3 by (rule activatePowerUp_inv) (simp add: l)
  show "activePowerUp (updatePowerUps inp s) = Some r"
    by (simp add: u activatePowerUp_fields)
  then show "active_powerups (updatePowerUps inp s) = [r]"
    using active_powerups_inv [OF j] by (simp add: u)
  show "powerUpTimer (pu_store (updatePowerUps inp s) r) = POWER_UP_DURATION"
    by (simp add: u activatePowerUp_fields)
  show "powerUps (updatePowerUps inp s) = []"
    by (simp add: u activatePowerUp_fields l)
  show "r \<notin> pu_stage (updatePowerUps inp s)"
    by (simp add: u activatePowerUp_fields)
qed

text \<open>
  Claim C6. In every state the program can reach the invariant \<open>pu_inv\<close> holds, and
  under it at most one of the power-ups the game refers to is active. Picking up a
  power-up that is on the screen first deactivates the power-up in effect (after that
  step none is active), then makes the new one the only active power-up with a duration
  of 10000 ms, and removes it from the power-ups on the screen and from the stage. A
  frame in which the power-up on the screen overlaps the player after its move does
  exactly that.
\<close>

theorem one_active_power_up:
  "(reachable s \<longrightarrow> pu_inv s) \<and>
   (pu_inv s \<longrightarrow>
      length (active_powerups s) \<le> 1 \<and>
      active_powerups (deactivate_current s) = [] \<and>
      (\<forall>r \<in> set (powerUps s).
         activePowerUp (activatePowerUp r s) = Some r \<and>
         active_powerups (activatePowerUp r s) = [r] \<and>
         powerUpTimer (pu_store (activatePowerUp r s) r) = POWER_UP_DURATION \<and>
         POWER_UP_DURATION = 10000 \<and>
         (\<forall>a. activePowerUp s = Some a \<longrightarrow>
              \<not> powerUpActive (pu_store (activatePowerUp r s) a)) \<and>
         powerUps (activatePowerUp r s) = remove1 r (powerUps s) \<and>
         r \<notin> set (powerUps (activatePowerUp r s)) \<and>
         r \<notin> pu_stage (activatePowerUp r s)) \<and>
      (\<forall>r. powerUps s = [r] \<and> \<not> pu_y (pu_store s r) + 1 > screen_height \<and>
           checkCollision
             (powerup_box ((pu_store s r)\<lparr>pu_y := pu_y (pu_store s r) + 1\<rparr>)) (player_box s)
           \<longrightarrow>
           activePowerUp (updatePowerUps inp s) = Some r \<and>
           active_powerups (updatePowerUps inp s) = [r] \<and>
           powerUpTimer (pu_store (updatePowerUps inp s) r) = POWER_UP_DURATION \<and>
           powerUps (updatePowerUps inp s) = [] \<and>
           r \<notin> pu_stage (updatePowerUps inp s)))"
proof (intro conjI impI)
  assume "reachable s"
  then show "pu_inv s" by (rule reachable_inv)
next
  assume i: "pu_inv s"
  show "length (active_powerups s) \<le> 1"
    by (simp add: active_powerups_inv [OF i] split: option.split)
  show "active_powerups (deactivate_current s) = []"
    using i by (rule deactivate_current_none)
  show "\<forall>r \<in> set (powerUps s).
         activePowerUp (activatePowerUp r s) = Some r \<and>
         active_powerups (activatePowerUp r s) = [r] \<and>
         powerUpTimer (pu_store (activatePowerUp r s) r) = POWER_UP_DURATION \<and>
         POWER_UP_DURATION = 10000 \<and>
         (\<forall>a. activePowerUp s = Some a \<longrightarrow>
              \<not> powerUpActive (pu_store (activatePowerUp r s) a)) \<and>
         powerUps (activatePowerUp r s) = remove1 r (powerUps s) \<and>
         r \<notin> set (powerUps (activatePowerUp r s)) \<and>
         r \<notin> pu_stage (activatePowerUp r s)"
  proof
    fix r assume r: "r \<in> set (powerUps s)"
    have j: "pu_inv (activatePowerUp r s)" using i r by (rule activatePowerUp_inv)
    have d: "distinct (powerUps s)" using i by (simp add: pu_inv_def)
    have n: "a \<noteq> r" if "activePowerUp s = Some a" for a
      using i r that by (auto simp: pu_inv_def)
    show "activePowerUp (activatePowerUp r s) = Some r \<and>
         active_powerups (activatePowerUp r s) = [r] \<and>
         powerUpTimer (pu_store (activatePowerUp r s) r) = POWER_UP_DURATION \<and>
         POWER_UP_DURATION = 10000 \<and>
         (\<forall>a. activePowerUp s = Some a \<longrightarrow>
              \<not> powerUpActive (pu_store (activatePowerUp r s) a)) \<and>
         powerUps (activatePowerUp r s) = remove1 r (powerUps s) \<and>
         r \<notin> set (powerUps (activatePowerUp r s)) \<and>
         r \<notin> pu_stage (activatePowerUp r s)"
      using d n
      by (auto simp: active_powerups_inv [OF j] activatePowerUp_fields
          deactivate_current_fields POWER_UP_DURATION_def)
  qed
  show "\<forall>r. powerUps s = [r] \<and> \<not> pu_y (pu_store s r) + 1 > screen_height \<and>
           checkCollision
             (powerup_box ((pu_store s r)\<lparr>pu_y := pu_y (pu_store s r) + 1\<rparr>)) (player_box s)
           \<longrightarrow>
           activePowerUp (updatePowerUps inp s) = Some r \<and>
           active_powerups (updatePowerUps inp s) = [r] \<and>
           powerUpTimer (pu_store (updatePowerUps inp s) r) = POWER_UP_DURATION \<and>
           powerUps (updatePowerUps inp s) = [] \<and>
           r \<notin> pu_stage (updatePowerUps inp s)"
    using pickup_in_frame [OF i] by blast
qed


lemma tick_powerups:
  assumes "\<not> gameOver s"
  shows "powerUps (tick inp s) = powerUps (updatePowerUps inp s)"
    and "activePowerUp (tick inp s) = activePowerUp (updatePowerUps inp s)"
    and "pu_store (tick inp s) = pu_store (updatePowerUps inp s)"
    and "pu_stage (tick inp s) = pu_stage (updatePowerUps inp s)"
  using assms
  by (cases rule: tick_cases [of s inp]; auto dest!: bombs_loop_snd)+

lemma init_game_spawn:
  "powerUps (updatePowerUps input1 init_game) = [0]"
  "activePowerUp (updatePowerUps input1 init_game) = None"
  "pu_stage (updatePowerUps input1 init_game) = {0}"
  "powerUpActive (pu_store (updatePowerUps input1 init_game) 0) = False"
  by (simp_all add: updatePowerUps_def spawn_powerup_def expire_powerup_def createPowerUp_def
      Let_def init_game_fields input1_def POWER_UP_SPAWN_INTERVAL_def random_type_def
      screen_width_def screen_height_def checkCollision_def powerup_box_def player_box_def
      cannonHeight_def playerWidth_def playerHeight_def)

lemma pickup_state_fields:
  "powerUps pickup_state = [1]" "activePowerUp pickup_state = Some 0" "pu_next pickup_state = 2"
  "pu_store pickup_state 0 = \<lparr>pu_x = 300, pu_y = 540, powerUpType = RAPID_FIRE,
                        powerUpActive = True, powerUpTimer = 5000, bulletAngle = 0\<rparr>"
  "pu_store pickup_state 1 = \<lparr>pu_x = 420, pu_y = 530, powerUpType = LASER,
                        powerUpActive = False, powerUpTimer = 0, bulletAngle = 0\<rparr>"
  "player_box pickup_state = \<lparr>box_x = 400, box_y = 543, box_width = 40, box_height = 37\<rparr>"
  by (simp_all add: pickup_state_def player_box_def init_game_fields cannonHeight_def
      playerWidth_def playerHeight_def)

theorem one_active_power_up_witness:
  "reachable (run [Tick input1] init_game) \<and>
   pu_inv (run [Tick input1] init_game) \<and>
   powerUps (run [Tick input1] init_game) = [0] \<and>
   active_powerups (activatePowerUp 0 (run [Tick input1] init_game)) = [0] \<and>
   powerUps (activatePowerUp 0 (run [Tick input1] init_game)) = [] \<and>
   pu_inv pickup_state \<and>
   powerUps pickup_state = [1] \<and>
   activePowerUp pickup_state = Some 0 \<and>
   length (active_powerups pickup_state) \<le> 1 \<and>
   checkCollision
     (powerup_box ((pu_store pickup_state 1)\<lparr>pu_y := pu_y (pu_store pickup_state 1) + 1\<rparr>))
     (player_box pickup_state) \<and>
   active_powerups (deactivate_current pickup_state) = [] \<and>
   active_powerups (activatePowerUp 1 pickup_state) = [1] \<and>
   powerUpActive (pu_store (activatePowerUp 1 pickup_state) 0) = False \<and>
   activePowerUp (updatePowerUps input0 pickup_state) = Some 1 \<and>
   active_powerups (updatePowerUps input0 pickup_state) = [1] \<and>
   powerUps (updatePowerUps input0 pickup_state) = [] \<and>
   powerUpTimer (pu_store (updatePowerUps input0 pickup_state) 1) = 10000"
proof -
  let ?s = "step (Tick input1) init_game"
  have eq: "run [Tick input1] init_game = ?s" by simp
  have r: "reachable ?s"
    by (rule reachable_step [OF reachable_init])
  have g: "\<not> gameOver init_game" by (simp add: init_game_fields)
  have f: "powerUps ?s = [0]"
    by (simp add: step_def tick_powerups [OF g] init_game_spawn)
  from one_active_power_up [of ?s] r have i: "pu_inv ?s" by blast
  have m: "0 \<in> set (powerUps ?s)" unfolding f by simp
  from one_active_power_up [of ?s] i m
  have a: "active_powerups (activatePowerUp 0 ?s) = [0]"
    "powerUps (activatePowerUp 0 ?s) = remove1 0 (powerUps ?s)"
    by blast+
  note p = pickup_state_fields
  have p5: "pu_store pickup_state (Suc 0) = \<lparr>pu_x = 420, pu_y = 530, powerUpType = LASER,
                        powerUpActive = False, powerUpTimer = 0, bulletAngle = 0\<rparr>"
    using p(5) by simp
  have j: "pu_inv pickup_state"
    by (simp add: pu_inv_def p p5)
  have c: "checkCollision
     (powerup_box ((pu_store pickup_state 1)\<lparr>pu_y := pu_y (pu_store pickup_state 1) + 1\<rparr>))
     (player_box pickup_state)"
    and o: "\<not> pu_y (pu_store pickup_state 1) + 1 > screen_height"
    by (simp_all add: p p5 checkCollision_def powerup_box_def screen_height_def)
  have m1: "1 \<in> set (powerUps pickup_state)" by (simp add: p)
  from one_active_power_up [of pickup_state] j m1 p(2)
  have b: "length (active_powerups pickup_state) \<le> 1"
    "active_powerups (deactivate_current pickup_state) = []"
    "active_powerups (activatePowerUp 1 pickup_state) = [1]"
    "\<not> powerUpActive (pu_store (activatePowerUp 1 pickup_state) 0)"
    by blast+
  from one_active_power_up [of pickup_state input0] j p(1) c o
  have d: "activePowerUp (updatePowerUps input0 pickup_state) = Some 1"
    "active_powerups (updatePowerUps input0 pickup_state) = [1]"
    "powerUps (updatePowerUps input0 pickup_state) = []"
    "powerUpTimer (pu_store (updatePowerUps input0 pickup_state) 1) = POWER_UP_DURATION"
    by blast+
  show ?thesis
    unfolding eq using r i f a j p(1,2) b c d
    by (simp add: POWER_UP_DURATION_def)
qed

end
